theory Spec2Isabelle
  imports Complex_Main "HOL-Library.Sublist"
begin

section \<open>Values of the platform\<close>

text \<open>
  The repository is TypeScript running on a JavaScript engine (Node, for the services
  modelled here). Values that travel as JSON (tool arguments, tool results) are modelled
  by \<open>jsval\<close>, with integers for their numbers. The numbers of the configuration
  (limits, timeouts) are JavaScript numbers, which need not be whole: they are rationals
  here (\<open>NaN\<close> and the infinities are left out).
\<close>

datatype jsval =
    JNull
  | JBool bool
  | JNum int
  | JStr string
  | JArr "jsval list"
  | JObj "(string \<times> jsval) list"

text \<open>
  Template literals print a whole number in decimal: \<open>show_nat\<close> and \<open>show_int\<close>
  serve for array lengths and counters.
\<close>

fun show_nat :: "nat \<Rightarrow> string" where
  "show_nat n =
     (if n < 10 then [''0123456789'' ! n]
      else show_nat (n div 10) @ [''0123456789'' ! (n mod 10)])"

declare show_nat.simps [simp del]

definition show_int :: "int \<Rightarrow> string" where
  "show_int i = (if i < 0 then ''-'' @ show_nat (nat (- i)) else show_nat (nat i))"

definition dq :: string where
  "dq = [CHR 0x22]"

text \<open>
  \<open>Array.prototype.slice(start, end)\<close>: a negative index counts from the end, and both
  are clamped to the array.
\<close>

definition js_index :: "nat \<Rightarrow> int \<Rightarrow> nat" where
  "js_index len i = (if i < 0 then nat (max (int len + i) 0) else min (nat i) len)"

definition js_slice :: "'a list \<Rightarrow> int \<Rightarrow> int \<Rightarrow> 'a list" where
  "js_slice xs start end' =
     (let s = js_index (length xs) start; e = js_index (length xs) end'
      in take (e - s) (drop s xs))"

text \<open>
  Where an integer is wanted (an index of \<open>slice\<close>, the delay of a timer) the engine
  cuts off the fraction of a number, towards zero.
\<close>

definition js_to_integer :: "rat \<Rightarrow> int" where
  "js_to_integer q = (if q < 0 then \<lceil>q\<rceil> else \<lfloor>q\<rfloor>)"

text \<open>
  A serialiser, a parser and a number printer to run the definitions on concrete
  inputs. \<open>stringify\<close> prints a \<open>jsval\<close> as \<open>JSON.stringify\<close> does (no white space,
  keys in order, the escapes of the two-character forms and \<open>\u00XX\<close> for the other
  control characters). \<open>parse_basic\<close> reads the literals the scenarios below use and
  reports every other text as malformed. \<open>show_number\<close> prints a whole number in
  decimal and any other with the digits of its fraction, at most 17 of them.
\<close>

definition escape_char :: "char \<Rightarrow> string" where
  "escape_char c =
     (if c = CHR 0x22 then [CHR 0x5C, CHR 0x22]
      else if c = CHR 0x5C then [CHR 0x5C, CHR 0x5C]
      else if c = CHR 0x08 then [CHR 0x5C, CHR ''b'']
      else if c = CHR 0x09 then [CHR 0x5C, CHR ''t'']
      else if c = CHR 0x0A then [CHR 0x5C, CHR ''n'']
      else if c = CHR 0x0C then [CHR 0x5C, CHR ''f'']
      else if c = CHR 0x0D then [CHR 0x5C, CHR ''r'']
      else if (of_char c :: nat) < 32
        then [CHR 0x5C, CHR ''u'', CHR ''0'', CHR ''0'',
              ''0123456789abcdef'' ! ((of_char c :: nat) div 16),
              ''0123456789abcdef'' ! ((of_char c :: nat) mod 16)]
      else [c])"

definition quote :: "string \<Rightarrow> string" where
  "quote s = dq @ concat (map escape_char s) @ dq"

fun join_comma :: "string list \<Rightarrow> string" where
  "join_comma [] = []"
| "join_comma [x] = x"
| "join_comma (x # y # ys) = x @ '','' @ join_comma (y # ys)"

fun stringify :: "jsval \<Rightarrow> string" where
  "stringify JNull = ''null''"
| "stringify (JBool b) = (if b then ''true'' else ''false'')"
| "stringify (JNum i) = show_int i"
| "stringify (JStr s) = quote s"
| "stringify (JArr xs) = ''['' @ join_comma (map stringify xs) @ '']''"
| "stringify (JObj kvs) =
     ''{'' @ join_comma (map (\<lambda>(k, v). quote k @ '':'' @ stringify v) kvs) @ ''}''"

definition parse_basic :: "string \<Rightarrow> string + jsval" where
  "parse_basic s =
     (if s = ''{}'' then Inr (JObj [])
      else if s = ''[]'' then Inr (JArr [])
      else if s = ''null'' then Inr JNull
      else if s = ''true'' then Inr (JBool True)
      else if s = ''false'' then Inr (JBool False)
      else Inl ''Unexpected token'')"

fun fraction_digits :: "nat \<Rightarrow> rat \<Rightarrow> string" where
  "fraction_digits 0 q = []"
| "fraction_digits (Suc n) q =
     (if q = 0 then []
      else (''0123456789'' ! nat \<lfloor>q * 10\<rfloor>) # fraction_digits n (q * 10 - of_int \<lfloor>q * 10\<rfloor>))"

definition show_number :: "rat \<Rightarrow> string" where
  "show_number q =
     (if q = of_int \<lfloor>q\<rfloor> then show_int \<lfloor>q\<rfloor>
      else (if q < 0 then ''-'' else []) @ show_nat (nat \<lfloor>\<bar>q\<bar>\<rfloor>) @ ''.''
           @ fraction_digits 17 (\<bar>q\<bar> - of_int \<lfloor>\<bar>q\<bar>\<rfloor>))"

section \<open>Tool schemas (lib/schemas/tools)\<close>

datatype role = System | User | Assistant | Tool

record ToolCall =
  tc_id :: string
  tc_name :: string
  tc_arguments :: string

text \<open>
  \<open>tc_name\<close> and \<open>tc_arguments\<close> are \<open>function.name\<close> and \<open>function.arguments\<close>
  (the raw JSON text the model sent).
\<close>

record ParsedToolCall =
  pc_id :: string
  pc_name :: string
  pc_arguments :: jsval

record ToolResult =
  tr_toolCallId :: string
  tr_name :: string
  tr_result :: jsval
  tr_error :: "string option"
  tr_executionTimeMs :: "int option"

record Message =
  msg_role :: role
  msg_content :: string
  msg_name :: "string option"
  msg_tool_call_id :: "string option"
  msg_tool_calls :: "ToolCall list option"

text \<open>
  What the code takes from the platform, not from the repository: \<open>JSON.parse\<close>
  (\<open>JSON_parse P s = Inl msg\<close> is a thrown \<open>SyntaxError\<close> with the message
  \<open>msg\<close>), \<open>JSON.stringify\<close>, the printing of a number in a template literal, the
  clock and the event loop. Every definition that uses one of them takes it from a
  \<open>platform\<close> record, and the general theorems hold for every platform.

  \<open>clock_elapsed P call\<close> is the difference of the two readings of \<open>Date.now()\<close>
  that \<open>execute\<close> takes for \<open>call\<close> (the wall clock: nothing ties it to the time
  the handler needs, and it may even run backwards). \<open>timer_late P call\<close> is the time,
  in milliseconds, by which the event loop runs the callback of the timer set for
  \<open>call\<close> after the timer is due: a timer never fires early, and it fires late when
  other code keeps the thread.
\<close>

record platform =
  JSON_parse :: "string \<Rightarrow> string + jsval"
  JSON_stringify :: "jsval \<Rightarrow> string"
  Number_toString :: "rat \<Rightarrow> string"
  clock_elapsed :: "ParsedToolCall \<Rightarrow> int"
  timer_late :: "ParsedToolCall \<Rightarrow> nat"

text \<open>
  A JavaScript string is falsy exactly when it is empty; an absent optional string is
  falsy too. \<open>if (result.error)\<close> and \<open>result.error || ...\<close> test this.
\<close>

definition truthy :: "string option \<Rightarrow> bool" where
  "truthy e = (case e of None \<Rightarrow> False | Some s \<Rightarrow> s \<noteq> [])"

text \<open>
  \<open>executeToolCalls\<close> is declared on \<open>ToolCall[]\<close>, but the orchestrator hands it
  a \<open>ParsedToolCall\<close> (agent-orchestrator, \<open>executeToolCalls([parsedCall])\<close>), an
  object without a \<open>function\<close> property. \<open>CallObject\<close> is the object as it is at run
  time, in either shape. Reading \<open>toolCall.function.arguments\<close> of a \<open>ParsedToolCall\<close>
  throws a \<open>TypeError\<close>; inside \<open>parseToolCallArguments\<close> the \<open>catch\<close> turns it
  into \<open>null\<close>.
\<close>

datatype CallObject = AToolCall ToolCall | AParsedCall ParsedToolCall

fun parseToolCallArguments :: "platform \<Rightarrow> CallObject \<Rightarrow> ParsedToolCall option" where
  "parseToolCallArguments P (AToolCall toolCall) =
     (case JSON_parse P (tc_arguments toolCall) of
        Inl _ \<Rightarrow> None
      | Inr args \<Rightarrow>
          Some \<lparr>pc_id = tc_id toolCall, pc_name = tc_name toolCall, pc_arguments = args\<rparr>)"
| "parseToolCallArguments P (AParsedCall _) = None"

declare parseToolCallArguments.simps [simp del]

definition formatToolResultContent :: "platform \<Rightarrow> ToolResult \<Rightarrow> string" where
  "formatToolResultContent P r =
     (case tr_error r of
        None \<Rightarrow> JSON_stringify P (tr_result r)
      | Some e \<Rightarrow>
          if e \<noteq> [] then JSON_stringify P (JObj [(''error'', JStr e)])
          else JSON_stringify P (tr_result r))"

definition createToolResultMessage :: "platform \<Rightarrow> ToolResult \<Rightarrow> Message" where
  "createToolResultMessage P r =
     \<lparr>msg_role = Tool,
      msg_content = formatToolResultContent P r,
      msg_name = Some (tr_name r),
      msg_tool_call_id = Some (tr_toolCallId r),
      msg_tool_calls = None\<rparr>"

section \<open>Tool registry (lib/services/tool-registry.ts)\<close>

text \<open>
  A handler is a function of the arguments. Calling it either returns a value or throws
  (a promise that rejects throws at the \<open>await\<close>); a thrown value is an \<open>Error\<close>
  with its message, or something else. \<open>took\<close> is the time in milliseconds from the
  call until the handler's promise settles. \<open>awaits\<close> tells how it gets there: a
  handler that awaits gives the thread back to the event loop and settles in a later
  task (it waits for a timer or for input/output); one that does not is a synchronous
  function, or an asynchronous one without such a wait, and no task of the event loop
  runs between the call and the code after the \<open>await\<close> in \<open>execute\<close>, however long
  the handler computes.
\<close>

datatype Thrown = ThrownError string | ThrownOther

datatype HandlerOutcome = Returns jsval | Throws Thrown

record HandlerRun =
  took :: nat
  awaits :: bool
  outcome :: HandlerOutcome

record RegisteredTool =
  handler :: "jsval \<Rightarrow> HandlerRun"
  enabled :: bool

type_synonym ToolRegistry = "string \<Rightarrow> RegisteredTool option"

text \<open>
  \<open>execute\<close>: every path ends in a \<open>return\<close> of a result with
  \<open>executionTimeMs: Date.now() - startTime\<close>.
\<close>

definition execute :: "platform \<Rightarrow> ToolRegistry \<Rightarrow> ParsedToolCall \<Rightarrow> ToolResult" where
  "execute P tools call =
     (case tools (pc_name call) of
        None \<Rightarrow>
          \<lparr>tr_toolCallId = pc_id call, tr_name = pc_name call, tr_result = JNull,
           tr_error = Some (''Tool '' @ dq @ pc_name call @ dq @ '' not found''),
           tr_executionTimeMs = Some (clock_elapsed P call)\<rparr>
      | Some tool \<Rightarrow>
          if \<not> enabled tool then
            \<lparr>tr_toolCallId = pc_id call, tr_name = pc_name call, tr_result = JNull,
             tr_error = Some (''Tool '' @ dq @ pc_name call @ dq @ '' is disabled''),
             tr_executionTimeMs = Some (clock_elapsed P call)\<rparr>
          else
            (case outcome (handler tool (pc_arguments call)) of
               Returns v \<Rightarrow>
                 \<lparr>tr_toolCallId = pc_id call, tr_name = pc_name call, tr_result = v,
                  tr_error = None,
                  tr_executionTimeMs = Some (clock_elapsed P call)\<rparr>
             | Throws e \<Rightarrow>
                 \<lparr>tr_toolCallId = pc_id call, tr_name = pc_name call, tr_result = JNull,
                  tr_error = Some (case e of ThrownError m \<Rightarrow> m | ThrownOther \<Rightarrow> ''Unknown error''),
                  tr_executionTimeMs = Some (clock_elapsed P call)\<rparr>))"

section \<open>Tool executor (lib/services/tool-executor)\<close>

record ExecutionOptions =
  opt_timeout :: rat
  opt_maxConcurrent :: nat
  opt_continueOnError :: bool

definition DEFAULT_OPTIONS :: ExecutionOptions where
  "DEFAULT_OPTIONS = \<lparr>opt_timeout = 30000, opt_maxConcurrent = 5, opt_continueOnError = True\<rparr>"

definition sq :: string where
  "sq = [CHR 0x27]"

text \<open>The message of the engine's \<open>TypeError\<close> for reading a property of \<open>undefined\<close>.\<close>

definition type_error_message :: "string \<Rightarrow> string" where
  "type_error_message p = ''Cannot read properties of undefined (reading '' @ sq @ p @ sq @ '')''"

text \<open>
  \<open>setTimeout(f, delay)\<close>: a delay below 1 or above \<open>2^31 - 1\<close> is replaced by
  1, and the delay is cut to a whole number of milliseconds.
\<close>

definition timer_delay :: "rat \<Rightarrow> int" where
  "timer_delay delay =
     (if delay < 1 \<or> 2147483647 < delay then 1 else js_to_integer delay)"

text \<open>
  \<open>Promise.race\<close> of the execution against the timer, which is set first. The
  callback of the timer is a task of the event loop: it runs \<open>timer_delay timeout\<close>
  milliseconds after the call or later (\<open>timer_late\<close>), and never while other code
  runs. The execution wins the race when its promise has settled by then: always on the
  two early returns of \<open>execute\<close> and for a handler that does not await, whose result
  is passed on by microtasks of the running code, however long the handler took;
  otherwise when the handler settles before the callback of the timer runs (at the same
  millisecond the timer, set first, goes first). The rejection of the timer carries no
  execution time.
\<close>

definition settles_first :: "platform \<Rightarrow> ToolRegistry \<Rightarrow> ParsedToolCall \<Rightarrow> rat \<Rightarrow> bool" where
  "settles_first P tools call timeout =
     (case tools (pc_name call) of
        None \<Rightarrow> True
      | Some tool \<Rightarrow>
          \<not> enabled tool
          \<or> \<not> awaits (handler tool (pc_arguments call))
          \<or> int (took (handler tool (pc_arguments call)))
               < timer_delay timeout + int (timer_late P call))"

definition executeWithTimeout ::
  "platform \<Rightarrow> ToolRegistry \<Rightarrow> ParsedToolCall \<Rightarrow> rat \<Rightarrow> ToolResult" where
  "executeWithTimeout P tools call timeout =
     (if settles_first P tools call timeout
      then execute P tools call
      else
        \<lparr>tr_toolCallId = pc_id call, tr_name = pc_name call, tr_result = JNull,
         tr_error = Some (''Tool '' @ dq @ pc_name call @ dq @ '' execution timed out after ''
                          @ Number_toString P timeout @ ''ms''),
         tr_executionTimeMs = None\<rparr>)"

text \<open>
  The results array is sparse: \<open>results[index] = r\<close> beyond the end lengthens the
  array and leaves holes (\<open>None\<close>, read as \<open>undefined\<close>).
\<close>

definition js_set :: "'a option list \<Rightarrow> nat \<Rightarrow> 'a \<Rightarrow> 'a option list" where
  "js_set xs i v =
     (if i < length xs then xs[i := Some v]
      else xs @ replicate (i - length xs) None @ [Some v])"

text \<open>
  The \<open>forEach\<close> over the parsed calls: a parsed call joins \<open>validCalls\<close> with its
  index; a failed parse writes its error result at once. For a \<open>ParsedToolCall\<close> the
  error result reads \<open>toolCalls[index].function.name\<close>, which throws (\<open>Inl\<close>).
\<close>

fun collect_calls ::
  "platform \<Rightarrow> CallObject list \<Rightarrow> nat \<Rightarrow> (nat \<times> ParsedToolCall) list \<Rightarrow> ToolResult option list
   \<Rightarrow> string + ((nat \<times> ParsedToolCall) list \<times> ToolResult option list)" where
  "collect_calls P [] index validCalls results = Inr (validCalls, results)"
| "collect_calls P (c # cs) index validCalls results =
     (case parseToolCallArguments P c of
        Some call \<Rightarrow> collect_calls P cs (Suc index) (validCalls @ [(index, call)]) results
      | None \<Rightarrow>
          (case c of
             AToolCall toolCall \<Rightarrow>
               collect_calls P cs (Suc index) validCalls
                 (js_set results index
                    \<lparr>tr_toolCallId = tc_id toolCall, tr_name = tc_name toolCall, tr_result = JNull,
                     tr_error = Some ''Failed to parse tool call arguments'',
                     tr_executionTimeMs = None\<rparr>)
           | AParsedCall _ \<Rightarrow> Inl (type_error_message ''name'')))"

definition run_batch ::
  "platform \<Rightarrow> ToolRegistry \<Rightarrow> rat \<Rightarrow> (nat \<times> ParsedToolCall) list \<Rightarrow> ToolResult list" where
  "run_batch P tools timeout batch = map (\<lambda>ic. executeWithTimeout P tools (snd ic) timeout) batch"

definition place_results ::
  "(nat \<times> ParsedToolCall) list \<Rightarrow> ToolResult list \<Rightarrow> ToolResult option list
   \<Rightarrow> ToolResult option list" where
  "place_results batch batchResults results =
     fold (\<lambda>(ic, r) acc. js_set acc (fst ic) r) (zip batch batchResults) results"

text \<open>
  The batch loop \<open>for (i = 0; i < validCalls.length; i += maxConcurrent)\<close>. With
  \<open>maxConcurrent = 0\<close> it never advances; not returning is the value \<open>None\<close>.
\<close>

partial_function (option) batch_loop ::
  "platform \<Rightarrow> ToolRegistry \<Rightarrow> ExecutionOptions \<Rightarrow> (nat \<times> ParsedToolCall) list \<Rightarrow> nat
   \<Rightarrow> ToolResult option list \<Rightarrow> ToolResult option list option" where
  "batch_loop P tools opts validCalls i results =
     (if i < length validCalls then
        (if \<not> opt_continueOnError opts \<and>
            list_ex (\<lambda>r. truthy (tr_error r))
              (run_batch P tools (opt_timeout opts) (take (opt_maxConcurrent opts) (drop i validCalls)))
         then Some (place_results (take (opt_maxConcurrent opts) (drop i validCalls))
                      (run_batch P tools (opt_timeout opts)
                         (take (opt_maxConcurrent opts) (drop i validCalls)))
                      results)
         else batch_loop P tools opts validCalls (i + opt_maxConcurrent opts)
                (place_results (take (opt_maxConcurrent opts) (drop i validCalls))
                   (run_batch P tools (opt_timeout opts)
                      (take (opt_maxConcurrent opts) (drop i validCalls)))
                   results))
      else Some results)"

text \<open>
  \<open>executeToolCalls\<close>: \<open>None\<close> when the call does not return, \<open>Some (Inl msg)\<close> when
  the promise rejects with the error \<open>msg\<close>, \<open>Some (Inr results)\<close> otherwise.
\<close>

definition executeToolCalls ::
  "platform \<Rightarrow> ToolRegistry \<Rightarrow> ExecutionOptions \<Rightarrow> CallObject list
   \<Rightarrow> (string + ToolResult option list) option" where
  "executeToolCalls P tools opts toolCalls =
     (case collect_calls P toolCalls 0 [] [] of
        Inl msg \<Rightarrow> Some (Inl msg)
      | Inr (validCalls, results) \<Rightarrow>
          map_option Inr (batch_loop P tools opts validCalls 0 results))"

text \<open>
  The result of one call taken alone: what a failed parse writes, or what
  \<open>executeWithTimeout\<close> gives for the parsed call. \<open>aget\<close> reads a sparse array.
\<close>

definition parse_failure :: "ToolCall \<Rightarrow> ToolResult" where
  "parse_failure toolCall =
     \<lparr>tr_toolCallId = tc_id toolCall, tr_name = tc_name toolCall, tr_result = JNull,
      tr_error = Some ''Failed to parse tool call arguments'', tr_executionTimeMs = None\<rparr>"

definition own_result :: "platform \<Rightarrow> ToolRegistry \<Rightarrow> rat \<Rightarrow> ToolCall \<Rightarrow> ToolResult" where
  "own_result P tools timeout toolCall =
     (case parseToolCallArguments P (AToolCall toolCall) of
        None \<Rightarrow> parse_failure toolCall
      | Some call \<Rightarrow> executeWithTimeout P tools call timeout)"

definition aget :: "'a option list \<Rightarrow> nat \<Rightarrow> 'a option" where
  "aget xs i = (if i < length xs then xs ! i else None)"

definition hasToolCalls :: "Message \<Rightarrow> bool" where
  "hasToolCalls response =
     (case msg_tool_calls response of None \<Rightarrow> False | Some calls \<Rightarrow> calls \<noteq> [])"

section \<open>Chat context (lib/services/chat-service)\<close>

definition estimateTokenCount :: "string \<Rightarrow> nat" where
  "estimateTokenCount text = (length text + 3) div 4"

definition calculateConversationTokens :: "Message list \<Rightarrow> nat" where
  "calculateConversationTokens messages =
     fold (\<lambda>msg total. total + estimateTokenCount (msg_content msg) + 4) messages 0"

datatype WindowingStrategy = TruncateOldest | TruncateMiddle | Summarize

record ContextWindowOptions =
  maxTokens :: int
  strategy :: WindowingStrategy
  minMessages :: int
  keepSystemMessage :: bool

text \<open>
  The walk of \<open>truncateOldest\<close> over the reversed messages: \<open>result\<close> grows at the
  front, and the first message that neither fits nor is under the floor ends the walk.
\<close>

fun oldest_walk :: "int \<Rightarrow> Message list \<Rightarrow> Message list \<Rightarrow> int \<Rightarrow> Message list" where
  "oldest_walk minM [] result availableTokens = result"
| "oldest_walk minM (msg # reversed) result availableTokens =
     (if availableTokens - int (estimateTokenCount (msg_content msg) + 4) \<ge> 0
         \<or> int (length result) < minM
      then oldest_walk minM reversed (msg # result)
             (availableTokens - int (estimateTokenCount (msg_content msg) + 4))
      else result)"

definition system_reserve :: "Message option \<Rightarrow> int" where
  "system_reserve systemMessage =
     (case systemMessage of
        None \<Rightarrow> 0
      | Some m \<Rightarrow> int (estimateTokenCount (msg_content m) + 4))"

definition with_system :: "Message option \<Rightarrow> Message list \<Rightarrow> Message list" where
  "with_system systemMessage result =
     (case systemMessage of None \<Rightarrow> result | Some m \<Rightarrow> m # result)"

definition truncateOldest ::
  "Message option \<Rightarrow> Message list \<Rightarrow> int \<Rightarrow> int \<Rightarrow> Message list" where
  "truncateOldest systemMessage messages maxT minM =
     with_system systemMessage
       (oldest_walk minM (rev messages) [] (maxT - system_reserve systemMessage))"

definition truncateMiddle ::
  "Message option \<Rightarrow> Message list \<Rightarrow> int \<Rightarrow> int \<Rightarrow> Message list" where
  "truncateMiddle systemMessage messages maxT minM =
     (if int (length messages) \<le> minM * 2 then truncateOldest systemMessage messages maxT minM
      else
        let availableTokens = maxT - system_reserve systemMessage;
            keepFirst = (if minM div 2 = 0 then 1 else minM div 2);
            keepLast = minM - keepFirst;
            firstMessages = js_slice messages 0 keepFirst;
            lastMessages = js_slice messages (- keepLast) (int (length messages));
            keptTokens = fold (\<lambda>msg sum. sum + estimateTokenCount (msg_content msg) + 4)
                           (firstMessages @ lastMessages) 0
        in if int keptTokens > availableTokens
           then truncateOldest systemMessage messages maxT minM
           else
             with_system systemMessage
               (firstMessages @
                [\<lparr>msg_role = System,
                  msg_content = ''['' @ show_int (int (length messages) - keepFirst - keepLast)
                                @ '' messages truncated for context window]'',
                  msg_name = None, msg_tool_call_id = None, msg_tool_calls = None\<rparr>] @
                lastMessages))"

definition applyContextWindow :: "Message list \<Rightarrow> ContextWindowOptions \<Rightarrow> Message list" where
  "applyContextWindow messages opts =
     (if int (calculateConversationTokens messages) \<le> maxTokens opts then messages
      else
        let systemMessage =
              (case messages of
                 [] \<Rightarrow> None
               | m # _ \<Rightarrow> if keepSystemMessage opts \<and> msg_role m = System then Some m else None);
            workingMessages = (case systemMessage of None \<Rightarrow> messages | Some _ \<Rightarrow> tl messages)
        in case strategy opts of
             TruncateOldest \<Rightarrow>
               truncateOldest systemMessage workingMessages (maxTokens opts) (minMessages opts)
           | TruncateMiddle \<Rightarrow>
               truncateMiddle systemMessage workingMessages (maxTokens opts) (minMessages opts)
           | Summarize \<Rightarrow>
               truncateOldest systemMessage workingMessages (maxTokens opts) (minMessages opts))"

text \<open>The messages of a windowed list that are not system messages.\<close>

definition non_system :: "Message list \<Rightarrow> Message list" where
  "non_system messages = filter (\<lambda>m. msg_role m \<noteq> System) messages"

section \<open>Agent orchestrator (lib/services/agent-orchestrator)\<close>

text \<open>
  Time stamps and durations (\<open>Date.now()\<close>) are left out of steps, events and runs.
  The agent's tool list and model settings only shape the request sent upstream; the
  upstream's answers are an input of the model (\<open>chat\<close> below). The two limits of
  \<open>AgentBehavior\<close> are numbers: the schema bounds them (\<open>maxTurns\<close> from 1 to 50,
  \<open>maxToolCallsPerTurn\<close> from 1 to 20) but does not ask for whole numbers.
\<close>

record AgentBehavior =
  maxToolCallsPerTurn :: rat
  maxTurns :: rat
  autoContinue :: bool
  stopOnError :: bool
  requireConfirmation :: bool

record AgentDefinition =
  agent_id :: string
  systemPrompt :: string
  behavior :: AgentBehavior
  preferredModel :: "string option"

datatype AgentRunStatus =
  Pending | Planning | Executing | WaitingConfirmation | Completed | Failed | Cancelled

datatype StepType = Thinking | ToolCallStep | ToolResultStep | ResponseStep | ErrorStep

record AgentStep =
  step_index :: nat
  step_type :: StepType
  step_content :: string
  step_toolName :: "string option"
  step_toolArgs :: "jsval option"
  step_toolResult :: "jsval option"
  step_error :: "string option"

record AgentRun =
  run_id :: string
  run_agentId :: string
  run_status :: AgentRunStatus
  run_input :: string
  run_steps :: "AgentStep list"
  run_output :: "string option"
  run_error :: "string option"
  run_messages :: "Message list"
  currentTurn :: nat
  totalToolCalls :: nat

datatype AgentStreamEvent =
    StatusEvent AgentRunStatus
  | StepEvent AgentStep
  | ContentEvent string
  | ToolCallEvent AgentStep
  | ToolResultEvent AgentStep
  | ErrorEvent string
  | DoneEvent AgentRun

text \<open>
  One streamed answer of the upstream, as the loop reads it: the deltas of the
  \<open>data:\<close> lines that parse, in order, and then either the end of the stream or an
  exception (\<open>failure\<close> holds the \<open>errorMessage\<close> the \<open>catch\<close> computes; a failure
  of the request itself has no deltas).
\<close>

record Delta =
  delta_content :: string
  delta_tool_calls :: "ToolCall list option"

record ModelResponse =
  deltas :: "Delta list"
  failure :: "string option"

definition createStatusEvent :: "AgentRunStatus \<Rightarrow> AgentRun \<Rightarrow> AgentStreamEvent \<times> AgentRun" where
  "createStatusEvent status run = (StatusEvent status, run\<lparr>run_status := status\<rparr>)"

definition createStepEvent :: "AgentRun \<Rightarrow> AgentStep \<Rightarrow> AgentStreamEvent \<times> AgentRun" where
  "createStepEvent run step = (StepEvent step, run\<lparr>run_steps := run_steps run @ [step]\<rparr>)"

definition arguments_or_default :: "ToolCall \<Rightarrow> string" where
  "arguments_or_default toolCall =
     (if tc_arguments toolCall = [] then ''{}'' else tc_arguments toolCall)"

definition createToolCallEvent :: "platform \<Rightarrow> ToolCall \<Rightarrow> string + AgentStreamEvent" where
  "createToolCallEvent P toolCall =
     (case JSON_parse P (arguments_or_default toolCall) of
        Inl msg \<Rightarrow> Inl msg
      | Inr args \<Rightarrow>
          Inr (ToolCallEvent
                 \<lparr>step_index = 0, step_type = ToolCallStep,
                  step_content = ''Calling '' @ tc_name toolCall,
                  step_toolName = Some (tc_name toolCall), step_toolArgs = Some args,
                  step_toolResult = None, step_error = None\<rparr>))"

definition result_text :: "platform \<Rightarrow> ToolResult \<Rightarrow> string" where
  "result_text P result =
     (case tr_error result of
        None \<Rightarrow> JSON_stringify P (tr_result result)
      | Some e \<Rightarrow> if e \<noteq> [] then e else JSON_stringify P (tr_result result))"

definition createToolResultEvent :: "platform \<Rightarrow> ToolResult \<Rightarrow> AgentStreamEvent" where
  "createToolResultEvent P result =
     ToolResultEvent
       \<lparr>step_index = 0, step_type = ToolResultStep,
        step_content = result_text P result,
        step_toolName = Some (tr_name result), step_toolArgs = None,
        step_toolResult = Some (tr_result result), step_error = tr_error result\<rparr>"

text \<open>
  The \<open>try\<close> block of \<open>executeTools\<close> up to \<open>results[0]\<close>: \<open>Inl errorMessage\<close> is an
  exception on its way to the \<open>catch\<close> of the same iteration. Reading \<open>result.error\<close>
  of a missing first element throws as well.
\<close>

definition try_execute :: "platform \<Rightarrow> ToolRegistry \<Rightarrow> ToolCall \<Rightarrow> (string + ToolResult) option" where
  "try_execute P tools toolCall =
     (case JSON_parse P (arguments_or_default toolCall) of
        Inl msg \<Rightarrow> Some (Inl msg)
      | Inr args \<Rightarrow>
          (case executeToolCalls P tools DEFAULT_OPTIONS
                  [AParsedCall \<lparr>pc_id = tc_id toolCall, pc_name = tc_name toolCall,
                                pc_arguments = args\<rparr>] of
             None \<Rightarrow> None
           | Some (Inl msg) \<Rightarrow> Some (Inl msg)
           | Some (Inr results) \<Rightarrow>
               (case results of
                  Some result # _ \<Rightarrow> Some (Inr result)
                | _ \<Rightarrow> Some (Inl (type_error_message ''error'')))))"

text \<open>
  One iteration of the \<open>for\<close> loop of \<open>executeTools\<close>. \<open>Proceed\<close>: go on with the next
  call; \<open>Stop\<close>: the \<open>return\<close> under \<open>stopOnError\<close>; \<open>Raise msg\<close>: an exception
  that leaves \<open>executeTools\<close> (the \<open>JSON.parse\<close> calls outside its \<open>try\<close>).
\<close>

datatype signal = Proceed | Stop | Raise string

definition tool_call_body ::
  "platform \<Rightarrow> ToolRegistry \<Rightarrow> AgentDefinition \<Rightarrow> ToolCall \<Rightarrow> AgentRun
   \<Rightarrow> (AgentStreamEvent list \<times> AgentRun \<times> signal) option" where
  "tool_call_body P tools agent toolCall run =
     (case JSON_parse P (arguments_or_default toolCall) of
        Inl msg \<Rightarrow> Some ([], run, Raise msg)
      | Inr toolArgs \<Rightarrow>
          let (ev1, run1) =
                createStepEvent run
                  \<lparr>step_index = length (run_steps run), step_type = ToolCallStep,
                   step_content = ''Calling tool: '' @ tc_name toolCall,
                   step_toolName = Some (tc_name toolCall), step_toolArgs = Some toolArgs,
                   step_toolResult = None, step_error = None\<rparr>
          in (case createToolCallEvent P toolCall of
                Inl msg \<Rightarrow> Some ([ev1], run1, Raise msg)
              | Inr ev2 \<Rightarrow>
                  (case try_execute P tools toolCall of
                     None \<Rightarrow> None
                   | Some (Inr result) \<Rightarrow>
                       let run2 = run1\<lparr>run_messages := run_messages run1 @
                                    [\<lparr>msg_role = Tool, msg_content = result_text P result,
                                      msg_name = Some (tc_name toolCall),
                                      msg_tool_call_id = Some (tc_id toolCall),
                                      msg_tool_calls = None\<rparr>]\<rparr>;
                           (ev3, run3) =
                             createStepEvent run2
                               \<lparr>step_index = length (run_steps run2), step_type = ToolResultStep,
                                step_content = result_text P result,
                                step_toolName = Some (tc_name toolCall), step_toolArgs = None,
                                step_toolResult = Some (tr_result result),
                                step_error = tr_error result\<rparr>;
                           ev4 = createToolResultEvent P result
                       in if truthy (tr_error result) \<and> stopOnError (behavior agent)
                          then Some ([ev1, ev2, ev3, ev4],
                                     run3\<lparr>run_status := Failed, run_error := tr_error result\<rparr>,
                                     Stop)
                          else Some ([ev1, ev2, ev3, ev4], run3, Proceed)
                   | Some (Inl errorMessage) \<Rightarrow>
                       let run2 = run1\<lparr>run_messages := run_messages run1 @
                                    [\<lparr>msg_role = Tool, msg_content = ''Error: '' @ errorMessage,
                                      msg_name = Some (tc_name toolCall),
                                      msg_tool_call_id = Some (tc_id toolCall),
                                      msg_tool_calls = None\<rparr>]\<rparr>;
                           (ev3, run3) =
                             createStepEvent run2
                               \<lparr>step_index = length (run_steps run2), step_type = ErrorStep,
                                step_content = errorMessage,
                                step_toolName = Some (tc_name toolCall), step_toolArgs = None,
                                step_toolResult = None, step_error = Some errorMessage\<rparr>
                       in if stopOnError (behavior agent)
                          then Some ([ev1, ev2, ev3],
                                     run3\<lparr>run_status := Failed, run_error := Some errorMessage\<rparr>,
                                     Stop)
                          else Some ([ev1, ev2, ev3], run3, Proceed))))"

text \<open>
  \<open>executeTools\<close> returns the events it yields, the run, and the exception that
  leaves it, if any. Its caller cannot tell the early \<open>return\<close> from the end of the
  loop.
\<close>

fun executeTools ::
  "platform \<Rightarrow> ToolRegistry \<Rightarrow> AgentDefinition \<Rightarrow> ToolCall list \<Rightarrow> AgentRun
   \<Rightarrow> (AgentStreamEvent list \<times> AgentRun \<times> string option) option" where
  "executeTools P tools agent [] run = Some ([], run, None)"
| "executeTools P tools agent (toolCall # rest) run =
     (case tool_call_body P tools agent toolCall run of
        None \<Rightarrow> None
      | Some (evs, run', Proceed) \<Rightarrow>
          (case executeTools P tools agent rest run' of
             None \<Rightarrow> None
           | Some (evs', run'', thrown) \<Rightarrow> Some (evs @ evs', run'', thrown))
      | Some (evs, run', Stop) \<Rightarrow> Some (evs, run', None)
      | Some (evs, run', Raise msg) \<Rightarrow> Some (evs, run', Some msg))"

text \<open>Reading the stream: content accumulates, a delta with tool calls replaces the
  pending assistant message (with the content accumulated so far).\<close>

fun consume_stream ::
  "Delta list \<Rightarrow> string \<Rightarrow> Message option \<Rightarrow> AgentStreamEvent list \<times> string \<times> Message option" where
  "consume_stream [] accumulatedContent assistantMessage =
     ([], accumulatedContent, assistantMessage)"
| "consume_stream (delta # rest) accumulatedContent assistantMessage =
     (let acc = (if delta_content delta \<noteq> [] then accumulatedContent @ delta_content delta
                 else accumulatedContent);
          evs = (if delta_content delta \<noteq> [] then [ContentEvent (delta_content delta)] else []);
          pending = (case delta_tool_calls delta of
                       None \<Rightarrow> assistantMessage
                     | Some calls \<Rightarrow>
                         Some \<lparr>msg_role = Assistant, msg_content = acc, msg_name = None,
                               msg_tool_call_id = None, msg_tool_calls = Some calls\<rparr>)
      in case consume_stream rest acc pending of
           (evs', acc', pending') \<Rightarrow> (evs @ evs', acc', pending'))"

datatype turn_exit = NextTurn | BreakLoop | ReturnLoop

text \<open>The \<open>catch\<close> of the loop body.\<close>

definition catch_turn ::
  "AgentDefinition \<Rightarrow> AgentStreamEvent list \<Rightarrow> AgentRun \<Rightarrow> string
   \<Rightarrow> AgentStreamEvent list \<times> AgentRun \<times> turn_exit" where
  "catch_turn agent evs run errorMessage =
     (let (ev, run1) =
            createStepEvent run
              \<lparr>step_index = length (run_steps run), step_type = ErrorStep,
               step_content = errorMessage, step_toolName = None, step_toolArgs = None,
               step_toolResult = None, step_error = Some errorMessage\<rparr>
      in if stopOnError (behavior agent)
         then (evs @ [ev], run1\<lparr>run_status := Failed, run_error := Some errorMessage\<rparr>, ReturnLoop)
         else (evs @ [ev], run1, NextTurn))"

text \<open>
  The check of the per-turn limit: a step notes the truncation, and the truncated copy
  replaces the tool calls of the assistant message (the last message of the history).
\<close>

definition limit_tool_calls ::
  "platform \<Rightarrow> AgentDefinition \<Rightarrow> Message \<Rightarrow> ToolCall list \<Rightarrow> AgentRun
   \<Rightarrow> AgentStreamEvent list \<times> AgentRun" where
  "limit_tool_calls P agent assistantMessage toolCalls run =
     (if of_nat (length toolCalls) > maxToolCallsPerTurn (behavior agent) then
        (let limitedCalls =
               js_slice toolCalls 0 (js_to_integer (maxToolCallsPerTurn (behavior agent)));
             (ev, r) =
               createStepEvent run
                 \<lparr>step_index = length (run_steps run), step_type = Thinking,
                  step_content = ''Limiting tool calls from '' @ show_nat (length toolCalls)
                                 @ '' to ''
                                 @ Number_toString P (maxToolCallsPerTurn (behavior agent)),
                  step_toolName = None, step_toolArgs = None,
                  step_toolResult = None, step_error = None\<rparr>
         in ([ev],
             r\<lparr>run_messages := butlast (run_messages r) @
                  [assistantMessage\<lparr>msg_tool_calls := Some limitedCalls\<rparr>]\<rparr>))
      else ([], run))"

text \<open>The confirmation gate: a status change only, the loop goes on at once.\<close>

definition confirmation_gate :: "AgentDefinition \<Rightarrow> AgentRun \<Rightarrow> AgentStreamEvent list \<times> AgentRun" where
  "confirmation_gate agent run =
     (if requireConfirmation (behavior agent) then
        (let (ev, r) = createStatusEvent WaitingConfirmation (run\<lparr>run_status := WaitingConfirmation\<rparr>)
         in ([ev], r))
      else ([], run))"

text \<open>
  The branch of the loop body for an assistant message with tool calls.
  \<open>executeTools\<close> gets \<open>toolCalls\<close>, the calls as the model sent them.
\<close>

definition tool_turn ::
  "platform \<Rightarrow> ToolRegistry \<Rightarrow> AgentDefinition \<Rightarrow> AgentStreamEvent list \<Rightarrow> Message
   \<Rightarrow> ToolCall list \<Rightarrow> AgentRun \<Rightarrow> (AgentStreamEvent list \<times> AgentRun \<times> turn_exit) option" where
  "tool_turn P tools agent evs assistantMessage toolCalls run =
     (let run1 = run\<lparr>totalToolCalls := totalToolCalls run + length toolCalls\<rparr>;
          (evs2, run2) = limit_tool_calls P agent assistantMessage toolCalls run1;
          (evs3, run3) = confirmation_gate agent run2
      in case executeTools P tools agent toolCalls run3 of
           None \<Rightarrow> None
         | Some (tevs, run4, Some errorMessage) \<Rightarrow>
             Some (catch_turn agent (evs @ evs2 @ evs3 @ tevs) run4 errorMessage)
         | Some (tevs, run4, None) \<Rightarrow>
             Some (evs @ evs2 @ evs3 @ tevs, run4,
                   if autoContinue (behavior agent) then NextTurn else BreakLoop))"

text \<open>
  One iteration of the \<open>while\<close> loop. \<open>aborted n\<close> is the state of the abort signal
  (the run's timer or \<open>cancelRun\<close>) when the iteration that starts with
  \<open>currentTurn = n\<close> checks it; \<open>chat t\<close> is the upstream's answer to the request of
  turn \<open>t\<close>.
\<close>

definition begin_turn :: "AgentRun \<Rightarrow> AgentStreamEvent \<times> AgentRun" where
  "begin_turn run =
     (let run1 = run\<lparr>currentTurn := Suc (currentTurn run)\<rparr>
      in createStepEvent run1
           \<lparr>step_index = length (run_steps run1), step_type = Thinking,
            step_content = ''Turn '' @ show_nat (currentTurn run1) @ '': Processing...'',
            step_toolName = None, step_toolArgs = None,
            step_toolResult = None, step_error = None\<rparr>)"

definition finalize_message :: "string \<Rightarrow> Message option \<Rightarrow> Message" where
  "finalize_message accumulatedContent assistantMessage =
     (case assistantMessage of
        None \<Rightarrow>
          \<lparr>msg_role = Assistant, msg_content = accumulatedContent, msg_name = None,
           msg_tool_call_id = None, msg_tool_calls = None\<rparr>
      | Some m \<Rightarrow> m)"

text \<open>The branch for an assistant message without tool calls: the run is complete.\<close>

definition final_turn ::
  "AgentStreamEvent list \<Rightarrow> string \<Rightarrow> AgentRun \<Rightarrow> AgentStreamEvent list \<times> AgentRun \<times> turn_exit" where
  "final_turn evs accumulatedContent run =
     (let (ev, run1) =
            createStepEvent (run\<lparr>run_status := Completed, run_output := Some accumulatedContent\<rparr>)
              \<lparr>step_index = length (run_steps run), step_type = ResponseStep,
               step_content = accumulatedContent, step_toolName = None,
               step_toolArgs = None, step_toolResult = None, step_error = None\<rparr>
      in (evs @ [ev], run1, ReturnLoop))"

definition run_turn ::
  "platform \<Rightarrow> ToolRegistry \<Rightarrow> AgentDefinition \<Rightarrow> (nat \<Rightarrow> ModelResponse) \<Rightarrow> (nat \<Rightarrow> bool)
   \<Rightarrow> AgentRun \<Rightarrow> (AgentStreamEvent list \<times> AgentRun \<times> turn_exit) option" where
  "run_turn P tools agent chat aborted run =
     (if aborted (currentTurn run) then
        (let (ev, r) = createStatusEvent Cancelled (run\<lparr>run_status := Cancelled\<rparr>)
         in Some ([ev], r, ReturnLoop))
      else
        let (ev0, run2) = begin_turn run;
            response = chat (currentTurn run2);
            (cevs, accumulatedContent, pending) = consume_stream (deltas response) [] None
        in case failure response of
             Some errorMessage \<Rightarrow> Some (catch_turn agent (ev0 # cevs) run2 errorMessage)
           | None \<Rightarrow>
               let assistantMessage = finalize_message accumulatedContent pending;
                   run3 = run2\<lparr>run_messages := run_messages run2 @ [assistantMessage]\<rparr>
               in if hasToolCalls assistantMessage then
                    tool_turn P tools agent (ev0 # cevs) assistantMessage
                      (case msg_tool_calls assistantMessage of None \<Rightarrow> [] | Some calls \<Rightarrow> calls)
                      run3
                  else Some (final_turn (ev0 # cevs) accumulatedContent run3))"

text \<open>The turn counter moves only at the head of an iteration; the loop terminates by it.\<close>

lemma tool_call_body_currentTurn:
  "tool_call_body P tools agent toolCall run = Some (evs, run', sg) \<Longrightarrow> currentTurn run' = currentTurn run"
  by (auto simp: tool_call_body_def createStepEvent_def Let_def
           split: sum.splits option.splits if_splits prod.splits)

lemma executeTools_currentTurn:
  "executeTools P tools agent toolCalls run = Some (evs, run', thrown) \<Longrightarrow> currentTurn run' = currentTurn run"
proof (induction toolCalls arbitrary: run evs run' thrown)
  case Nil
  then show ?case by simp
next
  case (Cons toolCall rest)
  then show ?case
    by (auto split: option.splits prod.splits signal.splits dest: tool_call_body_currentTurn)
qed

lemma catch_turn_currentTurn:
  "catch_turn agent evs run msg = (evs', run', x) \<Longrightarrow> currentTurn run' = currentTurn run"
  by (auto simp: catch_turn_def createStepEvent_def split: if_splits)

lemma tool_turn_currentTurn:
  "tool_turn P tools agent evs m toolCalls run = Some (evs', run', x) \<Longrightarrow> currentTurn run' = currentTurn run"
  by (auto simp: tool_turn_def limit_tool_calls_def confirmation_gate_def createStepEvent_def
             createStatusEvent_def Let_def
           split: option.splits prod.splits if_splits
           dest!: executeTools_currentTurn catch_turn_currentTurn)

lemma run_turn_NextTurn:
  "run_turn P tools agent chat aborted run = Some (evs, run', NextTurn) \<Longrightarrow> currentTurn run' = Suc (currentTurn run)"
  by (auto simp: run_turn_def begin_turn_def final_turn_def createStepEvent_def
             createStatusEvent_def Let_def
           split: option.splits prod.splits if_splits
           dest!: tool_turn_currentTurn catch_turn_currentTurn)

text \<open>
  The \<open>while\<close> loop. \<open>Returned\<close>: a \<open>return\<close> inside the loop ended
  \<open>executeAgentLoop\<close>; \<open>FellThrough\<close>: the loop ended by its condition or by
  \<open>break\<close>, and the code after the loop runs.
\<close>

datatype loop_exit = Returned | FellThrough

function agent_loop ::
  "platform \<Rightarrow> ToolRegistry \<Rightarrow> AgentDefinition \<Rightarrow> (nat \<Rightarrow> ModelResponse) \<Rightarrow> (nat \<Rightarrow> bool)
   \<Rightarrow> AgentRun \<Rightarrow> (AgentStreamEvent list \<times> AgentRun \<times> loop_exit) option" where
  "agent_loop P tools agent chat aborted run =
     (if of_nat (currentTurn run) < maxTurns (behavior agent) then
        (case run_turn P tools agent chat aborted run of
           None \<Rightarrow> None
         | Some (evs, run', NextTurn) \<Rightarrow>
             (case agent_loop P tools agent chat aborted run' of
                None \<Rightarrow> None
              | Some (evs', run'', x) \<Rightarrow> Some (evs @ evs', run'', x))
         | Some (evs, run', BreakLoop) \<Rightarrow> Some (evs, run', FellThrough)
         | Some (evs, run', ReturnLoop) \<Rightarrow> Some (evs, run', Returned))
      else Some ([], run, FellThrough))"
  by pat_completeness auto
termination
proof (relation "measure (\<lambda>(P, tools, agent, chat, aborted, run).
                   nat \<lceil>maxTurns (behavior agent) - of_nat (currentTurn run)\<rceil>)", goal_cases)
  case 1
  then show ?case by simp
next
  case (2 P tools agent chat aborted run x2 evs y run' x)
  then have c: "currentTurn run' = Suc (currentTurn run)"
    using run_turn_NextTurn by blast
  let ?d = "maxTurns (behavior agent) - of_nat (currentTurn run)"
  from 2 have "0 < ?d" by simp
  then have pos: "0 < \<lceil>?d\<rceil>" by simp
  have "maxTurns (behavior agent) - of_nat (currentTurn run') = ?d - 1"
    by (simp add: c)
  then have "\<lceil>maxTurns (behavior agent) - of_nat (currentTurn run')\<rceil> = \<lceil>?d\<rceil> - 1"
    by (simp only: ceiling_diff_one)
  with pos show ?case by simp
qed


declare agent_loop.simps [simp del]

definition last_content :: "Message list \<Rightarrow> string" where
  "last_content messages = (case messages of [] \<Rightarrow> [] | _ \<Rightarrow> msg_content (last messages))"

definition executeAgentLoop ::
  "platform \<Rightarrow> ToolRegistry \<Rightarrow> AgentDefinition \<Rightarrow> (nat \<Rightarrow> ModelResponse) \<Rightarrow> (nat \<Rightarrow> bool)
   \<Rightarrow> AgentRun \<Rightarrow> (AgentStreamEvent list \<times> AgentRun) option" where
  "executeAgentLoop P tools agent chat aborted run =
     (case agent_loop P tools agent chat aborted run of
        None \<Rightarrow> None
      | Some (evs, run', Returned) \<Rightarrow> Some (evs, run')
      | Some (evs, run', FellThrough) \<Rightarrow>
          if run_status run' \<noteq> Completed \<and> run_status run' \<noteq> Failed
          then Some (evs, run'\<lparr>run_status := Completed,
                                run_output := Some (last_content (run_messages run'))\<rparr>)
          else Some (evs, run'))"

text \<open>
  \<open>runAgent\<close>, drained to its end. The orchestrator's state that it reads: the agent
  map, the number of active runs and the limit. \<open>servers\<close> is
  \<open>serverManager.getServer\<close>, \<open>runId\<close> the fresh id. The generator registers the run
  in \<open>activeRuns\<close> and removes it in \<open>finally\<close>. No statement of the loop throws past
  the loop's own \<open>catch\<close>, so the \<open>catch\<close> of \<open>runAgent\<close> has nothing to catch here.
\<close>

record ServerConfig =
  server_id :: string
  server_url :: string

record Orchestrator =
  agents :: "string \<Rightarrow> AgentDefinition option"
  activeRuns :: nat
  maxConcurrentRuns :: int

record RunAgentRequest =
  req_input :: string
  req_serverId :: string
  req_model :: "string option"
  req_contextMessages :: "Message list option"

definition resolve_model :: "RunAgentRequest \<Rightarrow> AgentDefinition \<Rightarrow> string" where
  "resolve_model request agent =
     (let preferred = (case preferredModel agent of None \<Rightarrow> [] | Some m \<Rightarrow> m)
      in case req_model request of
           None \<Rightarrow> preferred
         | Some m \<Rightarrow> if m \<noteq> [] then m else preferred)"

definition plain_message :: "role \<Rightarrow> string \<Rightarrow> Message" where
  "plain_message r c =
     \<lparr>msg_role = r, msg_content = c, msg_name = None, msg_tool_call_id = None,
      msg_tool_calls = None\<rparr>"

definition runAgent ::
  "Orchestrator \<Rightarrow> (string \<Rightarrow> ServerConfig option) \<Rightarrow> platform \<Rightarrow> ToolRegistry
   \<Rightarrow> (nat \<Rightarrow> ModelResponse) \<Rightarrow> (nat \<Rightarrow> bool) \<Rightarrow> string \<Rightarrow> string \<Rightarrow> RunAgentRequest
   \<Rightarrow> (AgentStreamEvent list \<times> AgentRun option) option" where
  "runAgent orch servers P tools chat aborted runId agentId request =
     (case agents orch agentId of
        None \<Rightarrow> Some ([ErrorEvent (''Agent not found: '' @ agentId)], None)
      | Some agent \<Rightarrow>
          if int (activeRuns orch) \<ge> maxConcurrentRuns orch
          then Some ([ErrorEvent ''Maximum concurrent agent runs reached''], None)
          else
            (case servers (req_serverId request) of
               None \<Rightarrow> Some ([ErrorEvent (''Server not found: '' @ req_serverId request)], None)
             | Some server \<Rightarrow>
                 if resolve_model request agent = []
                 then Some ([ErrorEvent ''No model specified for agent run''], None)
                 else
                   let run = \<lparr>run_id = runId, run_agentId = agentId, run_status = Pending,
                              run_input = req_input request, run_steps = [], run_output = None,
                              run_error = None, run_messages = [], currentTurn = 0,
                              totalToolCalls = 0\<rparr>;
                       run1 = run\<lparr>run_messages :=
                                [plain_message System (systemPrompt agent)] @
                                (case req_contextMessages request of None \<Rightarrow> [] | Some ms \<Rightarrow> ms) @
                                [plain_message User (req_input request)]\<rparr>;
                       (ev, run2) = createStatusEvent Executing run1
                   in (case executeAgentLoop P tools agent chat aborted run2 of
                         None \<Rightarrow> None
                       | Some (evs, run3) \<Rightarrow> Some (ev # evs @ [DoneEvent run3], Some run3))))"

text \<open>
  Observers of a run, for the statements below: the \<open>type\<close> tag of an event, the
  text of the assistant message of a turn (\<open>assistant_text\<close>: what the model wrote
  before its last delta with tool calls, or all of it when there are none), and the
  number of tool calls in that message, before the truncation (\<open>requested_calls\<close>, 0
  when the turn ended in an exception before the message was complete) and after it
  (\<open>kept_calls\<close>).
\<close>

definition event_type :: "AgentStreamEvent \<Rightarrow> string" where
  "event_type e =
     (case e of
        StatusEvent _ \<Rightarrow> ''status''
      | StepEvent _ \<Rightarrow> ''step''
      | ContentEvent _ \<Rightarrow> ''content''
      | ToolCallEvent _ \<Rightarrow> ''tool_call''
      | ToolResultEvent _ \<Rightarrow> ''tool_result''
      | ErrorEvent _ \<Rightarrow> ''error''
      | DoneEvent _ \<Rightarrow> ''done'')"

fun is_done :: "AgentStreamEvent \<Rightarrow> bool" where
  "is_done (DoneEvent _) = True"
| "is_done _ = False"

fun is_error :: "AgentStreamEvent \<Rightarrow> bool" where
  "is_error (ErrorEvent _) = True"
| "is_error _ = False"

definition assistant_calls :: "ModelResponse \<Rightarrow> ToolCall list" where
  "assistant_calls response =
     (case failure response of
        Some _ \<Rightarrow> []
      | None \<Rightarrow>
          (case consume_stream (deltas response) [] None of
             (cevs, accumulatedContent, pending) \<Rightarrow>
               (case msg_tool_calls (finalize_message accumulatedContent pending) of
                  None \<Rightarrow> []
                | Some calls \<Rightarrow> calls)))"


definition requested_calls :: "ModelResponse \<Rightarrow> nat" where
  "requested_calls response = length (assistant_calls response)"

definition kept_calls :: "AgentDefinition \<Rightarrow> ModelResponse \<Rightarrow> nat" where
  "kept_calls agent response =
     (if of_nat (requested_calls response) > maxToolCallsPerTurn (behavior agent)
      then length (js_slice (assistant_calls response) 0
                     (js_to_integer (maxToolCallsPerTurn (behavior agent))))
      else requested_calls response)"

section \<open>Sample inputs\<close>

text \<open>
  A registry with one tool of each behaviour, for the concrete runs below: a tool that
  answers at once, one that waits a minute for its answer, one that computes for a
  minute without awaiting, one that throws an \<open>Error\<close>, one that throws something
  else, one that throws an \<open>Error\<close> with an empty message, and a disabled one.
\<close>

definition busy_run :: HandlerRun where
  "busy_run = \<lparr>took = 60000, awaits = False, outcome = Returns (JStr ''ready'')\<rparr>"

definition sample_tools :: ToolRegistry where
  "sample_tools name =
     (if name = ''calculator'' then
        Some \<lparr>handler = (\<lambda>args. \<lparr>took = 0, awaits = False,
                                   outcome = Returns (JObj [(''result'', JNum 4)])\<rparr>),
              enabled = True\<rparr>
      else if name = ''slow'' then
        Some \<lparr>handler = (\<lambda>args. \<lparr>took = 60000, awaits = True, outcome = Returns JNull\<rparr>),
              enabled = True\<rparr>
      else if name = ''busy'' then
        Some \<lparr>handler = (\<lambda>args. busy_run), enabled = True\<rparr>
      else if name = ''broken'' then
        Some \<lparr>handler = (\<lambda>args. \<lparr>took = 1, awaits = True,
                                   outcome = Throws (ThrownError ''boom'')\<rparr>),
              enabled = True\<rparr>
      else if name = ''odd'' then
        Some \<lparr>handler = (\<lambda>args. \<lparr>took = 1, awaits = True, outcome = Throws ThrownOther\<rparr>),
              enabled = True\<rparr>
      else if name = ''silent'' then
        Some \<lparr>handler = (\<lambda>args. \<lparr>took = 1, awaits = True,
                                   outcome = Throws (ThrownError [])\<rparr>),
              enabled = True\<rparr>
      else if name = ''off'' then
        Some \<lparr>handler = (\<lambda>args. \<lparr>took = 0, awaits = False, outcome = Returns JNull\<rparr>),
              enabled = False\<rparr>
      else None)"

text \<open>
  A platform for the concrete runs: the serialiser, parser and number printer above, a
  clock that shows the time the handler took (nothing on the early returns), and
  timers that fire when they are due.
\<close>

definition sample_elapsed :: "ParsedToolCall \<Rightarrow> int" where
  "sample_elapsed call =
     (case sample_tools (pc_name call) of
        None \<Rightarrow> 0
      | Some tool \<Rightarrow>
          if enabled tool then int (took (handler tool (pc_arguments call))) else 0)"

definition basic_platform :: platform where
  "basic_platform =
     \<lparr>JSON_parse = parse_basic, JSON_stringify = stringify, Number_toString = show_number,
      clock_elapsed = sample_elapsed, timer_late = (\<lambda>call. 0)\<rparr>"

definition sample_call :: "string \<Rightarrow> string \<Rightarrow> ParsedToolCall" where
  "sample_call i n = \<lparr>pc_id = i, pc_name = n, pc_arguments = JObj []\<rparr>"

definition sample_toolcall :: "string \<Rightarrow> string \<Rightarrow> string \<Rightarrow> ToolCall" where
  "sample_toolcall i n a = \<lparr>tc_id = i, tc_name = n, tc_arguments = a\<rparr>"

definition sample_history :: "Message list" where
  "sample_history =
     [plain_message System ''You are a helpful assistant.'',
      plain_message User ''What is the capital of France?'',
      plain_message Assistant ''The capital of France is Paris.'',
      plain_message User ''And of Italy?'']"

text \<open>
  An orchestrator with one agent (limits and policy as given), one server, a request,
  and answers of the upstream: tool calls, a text, a failure of the request.
\<close>

definition sample_agent :: "rat \<Rightarrow> rat \<Rightarrow> bool \<Rightarrow> bool \<Rightarrow> AgentDefinition" where
  "sample_agent perTurn turns continue stop =
     \<lparr>agent_id = ''agent1'', systemPrompt = ''You are an agent.'',
      behavior = \<lparr>maxToolCallsPerTurn = perTurn, maxTurns = turns, autoContinue = continue,
                  stopOnError = stop, requireConfirmation = False\<rparr>,
      preferredModel = None\<rparr>"

definition sample_orchestrator :: "AgentDefinition \<Rightarrow> Orchestrator" where
  "sample_orchestrator agent =
     \<lparr>agents = (\<lambda>i. if i = ''agent1'' then Some agent else None),
      activeRuns = 0, maxConcurrentRuns = 5\<rparr>"

definition sample_servers :: "string \<Rightarrow> ServerConfig option" where
  "sample_servers i =
     (if i = ''local'' then Some \<lparr>server_id = ''local'', server_url = ''http://localhost:1234/v1''\<rparr>
      else None)"

definition sample_request :: RunAgentRequest where
  "sample_request =
     \<lparr>req_input = ''hi'', req_serverId = ''local'', req_model = Some ''m'',
      req_contextMessages = None\<rparr>"

definition tool_response :: "ToolCall list \<Rightarrow> ModelResponse" where
  "tool_response calls =
     \<lparr>deltas = [\<lparr>delta_content = [], delta_tool_calls = Some calls\<rparr>], failure = None\<rparr>"

definition text_response :: "string \<Rightarrow> ModelResponse" where
  "text_response s =
     \<lparr>deltas = [\<lparr>delta_content = s, delta_tool_calls = None\<rparr>], failure = None\<rparr>"

definition failed_response :: "string \<Rightarrow> ModelResponse" where
  "failed_response msg = \<lparr>deltas = [], failure = Some msg\<rparr>"

definition two_calls_then_text :: "nat \<Rightarrow> ModelResponse" where
  "two_calls_then_text t =
     (if t = 1 then tool_response [sample_toolcall ''c1'' ''calculator'' ''{}'',
                                   sample_toolcall ''c2'' ''slow'' ''{}'']
      else text_response ''done'')"

definition tool_call_then_text :: "nat \<Rightarrow> ModelResponse" where
  "tool_call_then_text t =
     (if t = 1 then tool_response [sample_toolcall ''c1'' ''calculator'' ''{}'']
      else text_response ''done'')"


definition sample_run :: AgentRun where
  "sample_run =
     \<lparr>run_id = ''run1'', run_agentId = ''agent1'', run_status = Executing, run_input = ''hi'',
      run_steps = [], run_output = None, run_error = None,
      run_messages = [plain_message System ''You are an agent.'', plain_message User ''hi''],
      currentTurn = 0, totalToolCalls = 0\<rparr>"

section \<open>Theorems\<close>

subsection \<open>Tool registry\<close>

text \<open>
  C8. \<open>execute\<close> returns a \<open>ToolResult\<close> for every parsed call and never throws (the
  function is total: the handler's exception is the only one, and it is caught). An
  unregistered name gives the error \<open>Tool "<name>" not found\<close> with result \<open>null\<close>, a
  disabled tool the error \<open>Tool "<name>" is disabled\<close>, a thrown \<open>Error\<close> its message
  as the error (any other thrown value \<open>Unknown error\<close>), a returned value the result
  with no error; id and name are the call's, and the execution time is recorded in
  every case (the difference of the two clock readings). For the call
  \<open>{id: "c2", name: "nonexistent", arguments: {}}\<close> on a registry without that tool
  the error is \<open>Tool "nonexistent" not found\<close> and the result \<open>null\<close>.
\<close>

theorem execute_returns_result:
  "(tools (pc_name call) = None \<longrightarrow>
      execute P tools call =
        \<lparr>tr_toolCallId = pc_id call, tr_name = pc_name call, tr_result = JNull,
         tr_error = Some (''Tool '' @ [CHR 0x22] @ pc_name call @ [CHR 0x22] @ '' not found''),
         tr_executionTimeMs = Some (clock_elapsed P call)\<rparr>)
   \<and> (\<forall>tool. tools (pc_name call) = Some tool \<and> \<not> enabled tool \<longrightarrow>
      execute P tools call =
        \<lparr>tr_toolCallId = pc_id call, tr_name = pc_name call, tr_result = JNull,
         tr_error = Some (''Tool '' @ [CHR 0x22] @ pc_name call @ [CHR 0x22] @ '' is disabled''),
         tr_executionTimeMs = Some (clock_elapsed P call)\<rparr>)
   \<and> (\<forall>tool m. tools (pc_name call) = Some tool \<and> enabled tool
          \<and> outcome (handler tool (pc_arguments call)) = Throws (ThrownError m) \<longrightarrow>
      tr_error (execute P tools call) = Some m \<and> tr_result (execute P tools call) = JNull)
   \<and> (\<forall>tool. tools (pc_name call) = Some tool \<and> enabled tool
          \<and> outcome (handler tool (pc_arguments call)) = Throws ThrownOther \<longrightarrow>
      tr_error (execute P tools call) = Some ''Unknown error''
      \<and> tr_result (execute P tools call) = JNull)
   \<and> (\<forall>tool v. tools (pc_name call) = Some tool \<and> enabled tool
          \<and> outcome (handler tool (pc_arguments call)) = Returns v \<longrightarrow>
      tr_error (execute P tools call) = None \<and> tr_result (execute P tools call) = v)
   \<and> tr_toolCallId (execute P tools call) = pc_id call
   \<and> tr_name (execute P tools call) = pc_name call
   \<and> (\<exists>t. tr_executionTimeMs (execute P tools call) = Some t)
   \<and> (tools ''nonexistent'' = None \<longrightarrow>
        tr_error (execute P tools \<lparr>pc_id = ''c2'', pc_name = ''nonexistent'', pc_arguments = JObj []\<rparr>)
          = Some (''Tool '' @ [CHR 0x22] @ ''nonexistent'' @ [CHR 0x22] @ '' not found'')
        \<and> tr_result (execute P tools \<lparr>pc_id = ''c2'', pc_name = ''nonexistent'', pc_arguments = JObj []\<rparr>)
          = JNull)"
  by (auto simp: execute_def dq_def
           split: option.splits HandlerOutcome.splits Thrown.splits)

text \<open>The theorem at the sample registry, once for each kind of tool.\<close>

theorem execute_returns_result_witness:
  "sample_tools ''nonexistent'' = None
   \<and> tr_error (execute basic_platform sample_tools (sample_call ''c2'' ''nonexistent''))
       = Some (''Tool '' @ [CHR 0x22] @ ''nonexistent'' @ [CHR 0x22] @ '' not found'')
   \<and> tr_result (execute basic_platform sample_tools (sample_call ''c2'' ''nonexistent'')) = JNull
   \<and> tr_error (execute basic_platform sample_tools (sample_call ''c3'' ''off''))
       = Some (''Tool '' @ [CHR 0x22] @ ''off'' @ [CHR 0x22] @ '' is disabled'')
   \<and> tr_error (execute basic_platform sample_tools (sample_call ''c4'' ''broken'')) = Some ''boom''
   \<and> tr_error (execute basic_platform sample_tools (sample_call ''c5'' ''odd'')) = Some ''Unknown error''
   \<and> tr_error (execute basic_platform sample_tools (sample_call ''c1'' ''calculator'')) = None
   \<and> tr_result (execute basic_platform sample_tools (sample_call ''c1'' ''calculator''))
       = JObj [(''result'', JNum 4)]"
  using execute_returns_result [where tools = sample_tools and P = basic_platform
          and call = "sample_call ''c2'' ''nonexistent''"]
        execute_returns_result [where tools = sample_tools and P = basic_platform
          and call = "sample_call ''c3'' ''off''"]
        execute_returns_result [where tools = sample_tools and P = basic_platform
          and call = "sample_call ''c4'' ''broken''"]
        execute_returns_result [where tools = sample_tools and P = basic_platform
          and call = "sample_call ''c5'' ''odd''"]
        execute_returns_result [where tools = sample_tools and P = basic_platform
          and call = "sample_call ''c1'' ''calculator''"]
  by (simp add: sample_tools_def sample_call_def)

subsection \<open>Tool result messages\<close>

text \<open>
  C9 (as amended). \<open>createToolResultMessage\<close> gives a message of role \<open>tool\<close> with the
  result's call id and name. Its content is \<open>JSON.stringify(result.result)\<close> when the
  error is absent or the empty string, and \<open>JSON.stringify({error: result.error})\<close> when
  the error is a non-empty string.
\<close>

theorem createToolResultMessage_content:
  "msg_role (createToolResultMessage P r) = Tool
   \<and> msg_tool_call_id (createToolResultMessage P r) = Some (tr_toolCallId r)
   \<and> msg_name (createToolResultMessage P r) = Some (tr_name r)
   \<and> msg_content (createToolResultMessage P r) =
       (case tr_error r of
          None \<Rightarrow> JSON_stringify P (tr_result r)
        | Some e \<Rightarrow>
            if e = [] then JSON_stringify P (tr_result r)
            else JSON_stringify P (JObj [(''error'', JStr e)]))"
  by (simp add: createToolResultMessage_def formatToolResultContent_def split: option.splits)

text \<open>
  The claim as stated fails when the error is present but empty: \<open>if (result.error)\<close>
  is false for the empty string. The registry produces such a result for a handler
  that throws \<open>new Error("")\<close>; the content is then \<open>null\<close>, not \<open>{"error":""}\<close>.
\<close>

theorem createToolResultMessage_empty_error:
  "tr_error (execute basic_platform sample_tools (sample_call ''c6'' ''silent'')) = Some []
   \<and> msg_content (createToolResultMessage basic_platform
                     (execute basic_platform sample_tools (sample_call ''c6'' ''silent'')))
       \<noteq> JSON_stringify basic_platform (JObj [(''error'', JStr [])])
   \<and> msg_content (createToolResultMessage basic_platform
                     (execute basic_platform sample_tools (sample_call ''c6'' ''silent''))) = ''null''
   \<and> JSON_stringify basic_platform (JObj [(''error'', JStr [])])
       = [CHR 0x7B, CHR 0x22] @ ''error'' @ [CHR 0x22, CHR 0x3A, CHR 0x22, CHR 0x22, CHR 0x7D]"
  by (simp add: createToolResultMessage_def formatToolResultContent_def basic_platform_def
        execute_def sample_tools_def sample_call_def
        quote_def dq_def escape_char_def)

subsection \<open>Context window\<close>

text \<open>
  The walk of \<open>truncateOldest\<close> keeps a suffix of the messages, and a larger budget
  keeps a longer one: as long as both walks have kept the same messages, the larger
  budget has at least as many tokens left.
\<close>

lemma oldest_walk_extends: "suffix result (oldest_walk minM reversed result avail)"
proof (induction reversed arbitrary: result avail)
  case Nil
  show ?case by simp
next
  case (Cons msg reversed)
  have "suffix result (msg # result)" by (simp add: suffix_ConsI)
  with Cons show ?case
    by (auto intro: suffix_order.trans)
qed

lemma oldest_walk_within: "suffix (oldest_walk minM reversed result avail) (rev reversed @ result)"
proof (induction reversed arbitrary: result avail)
  case Nil
  show ?case by simp
next
  case (Cons msg reversed)
  have "suffix result ((rev reversed @ [msg]) @ result)"
    by (rule suffixI) simp
  with Cons [of "msg # result"] show ?case by auto
qed

lemma oldest_walk_mono:
  "avail1 \<le> avail2 \<Longrightarrow>
   suffix (oldest_walk minM reversed result avail1) (oldest_walk minM reversed result avail2)"
proof (induction reversed arbitrary: result avail1 avail2)
  case Nil
  show ?case by simp
next
  case (Cons msg reversed)
  let ?t = "int (estimateTokenCount (msg_content msg) + 4)"
  show ?case
  proof (cases "avail1 - ?t \<ge> 0 \<or> int (length result) < minM")
    case True
    with Cons.prems have c2: "avail2 - ?t \<ge> 0 \<or> int (length result) < minM" by auto
    from Cons.prems have "avail1 - ?t \<le> avail2 - ?t" by simp
    from Cons.IH [OF this, of "msg # result"] True c2 show ?thesis by simp
  next
    case False
    then have "oldest_walk minM (msg # reversed) result avail1 = result" by simp
    then show ?thesis by (simp only: oldest_walk_extends)
  qed
qed

lemma suffix_with_system:
  "suffix xs ys \<Longrightarrow> (\<And>m. sys = Some m \<Longrightarrow> msg_role m = System) \<Longrightarrow>
   suffix (non_system (with_system sys xs)) (non_system (with_system sys ys))"
  by (auto simp: with_system_def non_system_def suffix_def split: option.splits)

lemma truncateOldest_mono:
  "b1 \<le> b2 \<Longrightarrow> (\<And>m. sys = Some m \<Longrightarrow> msg_role m = System) \<Longrightarrow>
   suffix (non_system (truncateOldest sys messages b1 minM))
          (non_system (truncateOldest sys messages b2 minM))"
  unfolding truncateOldest_def
  by (rule suffix_with_system, rule oldest_walk_mono) simp_all

lemma truncateOldest_within:
  assumes "messages = (case sys of None \<Rightarrow> working | Some m \<Rightarrow> m # working)"
    and "\<And>m. sys = Some m \<Longrightarrow> msg_role m = System"
  shows "suffix (non_system (truncateOldest sys working b minM)) (non_system messages)"
proof -
  have "suffix (oldest_walk minM (rev working) [] (b - system_reserve sys)) working"
    using oldest_walk_within [of minM "rev working" "[]"] by simp
  from suffix_with_system [OF this, of sys] assms show ?thesis
    by (simp add: truncateOldest_def with_system_def non_system_def split: option.splits)
qed

text \<open>
  C7. For every message list, every \<open>minMessages\<close> and any two budgets
  \<open>maxTokens1 \<le> maxTokens2\<close>, the non-system messages that \<open>applyContextWindow\<close> with
  strategy \<open>truncate-oldest\<close> retains under \<open>maxTokens1\<close> are among those it retains
  under \<open>maxTokens2\<close>: as lists the first is a suffix of the second, hence as sets a
  subset. This holds for all budgets, also those too small for the system message and
  the floor.
\<close>

theorem applyContextWindow_monotone:
  assumes "maxTokens1 \<le> maxTokens2"
  shows "suffix
           (non_system (applyContextWindow messages
              \<lparr>maxTokens = maxTokens1, strategy = TruncateOldest, minMessages = minM,
               keepSystemMessage = keep\<rparr>))
           (non_system (applyContextWindow messages
              \<lparr>maxTokens = maxTokens2, strategy = TruncateOldest, minMessages = minM,
               keepSystemMessage = keep\<rparr>))
         \<and> set (non_system (applyContextWindow messages
              \<lparr>maxTokens = maxTokens1, strategy = TruncateOldest, minMessages = minM,
               keepSystemMessage = keep\<rparr>))
           \<subseteq> set (non_system (applyContextWindow messages
              \<lparr>maxTokens = maxTokens2, strategy = TruncateOldest, minMessages = minM,
               keepSystemMessage = keep\<rparr>))"
proof -
  let ?r1 = "applyContextWindow messages
              \<lparr>maxTokens = maxTokens1, strategy = TruncateOldest, minMessages = minM,
               keepSystemMessage = keep\<rparr>"
  let ?r2 = "applyContextWindow messages
              \<lparr>maxTokens = maxTokens2, strategy = TruncateOldest, minMessages = minM,
               keepSystemMessage = keep\<rparr>"
  let ?total = "int (calculateConversationTokens messages)"
  define sys where "sys =
     (case messages of [] \<Rightarrow> None
      | m # _ \<Rightarrow> if keep \<and> msg_role m = System then Some m else None)"
  define working where "working = (case sys of None \<Rightarrow> messages | Some _ \<Rightarrow> tl messages)"
  have shape: "messages = (case sys of None \<Rightarrow> working | Some m \<Rightarrow> m # working)"
    by (auto simp: sys_def working_def split: list.splits option.splits)
  have trunc: "\<And>b. \<not> ?total \<le> b \<Longrightarrow>
      applyContextWindow messages
        \<lparr>maxTokens = b, strategy = TruncateOldest, minMessages = minM, keepSystemMessage = keep\<rparr>
      = truncateOldest sys working b minM"
    by (simp add: applyContextWindow_def sys_def working_def Let_def
          cong: list.case_cong option.case_cong)
  have sysrole: "\<And>m. sys = Some m \<Longrightarrow> msg_role m = System"
    by (auto simp: sys_def split: list.splits if_splits)
  have keep_all: "\<And>b. ?total \<le> b \<Longrightarrow>
      applyContextWindow messages
        \<lparr>maxTokens = b, strategy = TruncateOldest, minMessages = minM, keepSystemMessage = keep\<rparr>
      = messages"
    by (simp add: applyContextWindow_def)
  have suf: "suffix (non_system ?r1) (non_system ?r2)"
  proof (cases "?total \<le> maxTokens1")
    case True
    with assms have "?total \<le> maxTokens2" by simp
    with True show ?thesis by (simp add: keep_all)
  next
    case n1: False
    show ?thesis
    proof (cases "?total \<le> maxTokens2")
      case True
      with n1 show ?thesis
        using truncateOldest_within [OF shape sysrole] by (simp add: keep_all trunc)
    next
      case False
      with n1 show ?thesis
        using truncateOldest_mono [OF assms sysrole] by (simp add: trunc)
    qed
  qed
  then show ?thesis by (auto dest: set_mono_suffix)
qed

text \<open>
  The theorem on a four-message history (43 tokens by the estimate) with the budgets 30
  and 40: the smaller keeps the last message, the larger the last two.
\<close>

theorem applyContextWindow_monotone_witness:
  "(30::int) \<le> 40
   \<and> applyContextWindow sample_history
        \<lparr>maxTokens = 30, strategy = TruncateOldest, minMessages = 1, keepSystemMessage = True\<rparr>
      = [plain_message System ''You are a helpful assistant.'',
         plain_message User ''And of Italy?'']
   \<and> applyContextWindow sample_history
        \<lparr>maxTokens = 40, strategy = TruncateOldest, minMessages = 1, keepSystemMessage = True\<rparr>
      = [plain_message System ''You are a helpful assistant.'',
         plain_message Assistant ''The capital of France is Paris.'',
         plain_message User ''And of Italy?'']
   \<and> set (non_system (applyContextWindow sample_history
        \<lparr>maxTokens = 30, strategy = TruncateOldest, minMessages = 1, keepSystemMessage = True\<rparr>))
      \<subseteq> set (non_system (applyContextWindow sample_history
        \<lparr>maxTokens = 40, strategy = TruncateOldest, minMessages = 1, keepSystemMessage = True\<rparr>))"
proof -
  have le: "(30::int) \<le> 40" by simp
  have a: "applyContextWindow sample_history
        \<lparr>maxTokens = 30, strategy = TruncateOldest, minMessages = 1, keepSystemMessage = True\<rparr>
      = [plain_message System ''You are a helpful assistant.'',
         plain_message User ''And of Italy?'']"
    by (simp add: applyContextWindow_def sample_history_def plain_message_def
          calculateConversationTokens_def estimateTokenCount_def truncateOldest_def
          with_system_def system_reserve_def)
  have b: "applyContextWindow sample_history
        \<lparr>maxTokens = 40, strategy = TruncateOldest, minMessages = 1, keepSystemMessage = True\<rparr>
      = [plain_message System ''You are a helpful assistant.'',
         plain_message Assistant ''The capital of France is Paris.'',
         plain_message User ''And of Italy?'']"
    by (simp add: applyContextWindow_def sample_history_def plain_message_def
          calculateConversationTokens_def estimateTokenCount_def truncateOldest_def
          with_system_def system_reserve_def)
  from applyContextWindow_monotone [OF le, of sample_history 1 True] le
  have "set (non_system (applyContextWindow sample_history
        \<lparr>maxTokens = 30, strategy = TruncateOldest, minMessages = 1, keepSystemMessage = True\<rparr>))
      \<subseteq> set (non_system (applyContextWindow sample_history
        \<lparr>maxTokens = 40, strategy = TruncateOldest, minMessages = 1, keepSystemMessage = True\<rparr>))"
    by blast
  with a b le show ?thesis by blast
qed

subsection \<open>Tool executor\<close>

text \<open>
  The batch loop writes, for a prefix of the valid calls (all of them when
  \<open>continueOnError\<close> holds), each call's result at the call's index; the \<open>forEach\<close>
  before it has written the parse failures at theirs. Together: position \<open>i\<close> of the
  array, where it is defined, holds the result of call \<open>i\<close>.
\<close>

lemma length_js_set: "length (js_set xs j v) = max (length xs) (Suc j)"
  by (auto simp: js_set_def)

lemma aget_js_set: "aget (js_set xs j v) i = (if i = j then Some v else aget xs i)"
  by (auto simp: js_set_def aget_def nth_append)

lemma place_results_fold:
  "place_results batch (run_batch P tools timeout batch) results =
   fold (\<lambda>ic acc. js_set acc (fst ic) (executeWithTimeout P tools (snd ic) timeout)) batch results"
  unfolding place_results_def run_batch_def
  by (induction batch arbitrary: results) simp_all

lemma batch_loop_fold:
  assumes mc: "0 < opt_maxConcurrent opts"
  shows "\<exists>k. batch_loop P tools opts valid i results =
               Some (fold (\<lambda>ic acc. js_set acc (fst ic)
                             (executeWithTimeout P tools (snd ic) (opt_timeout opts)))
                       (take k (drop i valid)) results)
             \<and> (opt_continueOnError opts \<longrightarrow> length valid - i \<le> k)"
proof (induction "length valid - i" arbitrary: i results rule: less_induct)
  case less
  let ?F = "\<lambda>ic acc. js_set acc (fst ic) (executeWithTimeout P tools (snd ic) (opt_timeout opts))"
  let ?mc = "opt_maxConcurrent opts"
  let ?batch = "take ?mc (drop i valid)"
  show ?case
  proof (cases "i < length valid")
    case False
    then have "batch_loop P tools opts valid i results = Some results"
      by (subst batch_loop.simps) simp
    with False show ?thesis by (intro exI [of _ 0]) simp
  next
    case True
    let ?res' = "fold ?F ?batch results"
    show ?thesis
    proof (cases "\<not> opt_continueOnError opts \<and>
            list_ex (\<lambda>r. truthy (tr_error r)) (run_batch P tools (opt_timeout opts) ?batch)")
      case stop: True
      with True have "batch_loop P tools opts valid i results = Some ?res'"
        by (subst batch_loop.simps) (simp add: place_results_fold)
      with stop show ?thesis by (intro exI [of _ ?mc]) simp
    next
      case go: False
      with True have step: "batch_loop P tools opts valid i results =
          batch_loop P tools opts valid (i + ?mc) ?res'"
        by (subst batch_loop.simps) (auto simp: place_results_fold)
      from True mc have "length valid - (i + ?mc) < length valid - i" by simp
      from less [OF this, of ?res'] obtain k where
        k: "batch_loop P tools opts valid (i + ?mc) ?res' =
              Some (fold ?F (take k (drop (i + ?mc) valid)) ?res')"
        and kc: "opt_continueOnError opts \<longrightarrow> length valid - (i + ?mc) \<le> k"
        by blast
      have dd: "drop ?mc (drop i valid) = drop (i + ?mc) valid"
        by (simp add: add.commute)
      have "take (?mc + k) (drop i valid) = ?batch @ take k (drop ?mc (drop i valid))"
        by (rule take_add)
      with dd have "take (?mc + k) (drop i valid) = ?batch @ take k (drop (i + ?mc) valid)"
        by simp
      then have "fold ?F (take (?mc + k) (drop i valid)) results =
                 fold ?F (take k (drop (i + ?mc) valid)) ?res'"
        by simp
      with step k kc show ?thesis
        by (intro exI [of _ "?mc + k"]) auto
    qed
  qed
qed

lemma collect_calls_shape:
  "\<exists>V R. collect_calls P (map AToolCall cs) idx valid results = Inr (valid @ V, R)
     \<and> (\<forall>j call. (j, call) \<in> set V \<longleftrightarrow>
           (idx \<le> j \<and> j < idx + length cs
            \<and> parseToolCallArguments P (AToolCall (cs ! (j - idx))) = Some call))
     \<and> (\<forall>j. aget R j =
           (if idx \<le> j \<and> j < idx + length cs
               \<and> parseToolCallArguments P (AToolCall (cs ! (j - idx))) = None
            then Some (parse_failure (cs ! (j - idx))) else aget results j))
     \<and> length R \<le> max (length results) (idx + length cs)"
proof (induction cs arbitrary: idx valid results)
  case Nil
  show ?case by auto
next
  case (Cons c cs)
  show ?case
  proof (cases "parseToolCallArguments P (AToolCall c)")
    case (Some call)
    from Cons [of "Suc idx" "valid @ [(idx, call)]" results] obtain V R where
      eq: "collect_calls P (map AToolCall cs) (Suc idx) (valid @ [(idx, call)]) results
             = Inr ((valid @ [(idx, call)]) @ V, R)"
      and v: "\<forall>j call. (j, call) \<in> set V \<longleftrightarrow>
           (Suc idx \<le> j \<and> j < Suc idx + length cs
            \<and> parseToolCallArguments P (AToolCall (cs ! (j - Suc idx))) = Some call)"
      and r: "\<forall>j. aget R j =
           (if Suc idx \<le> j \<and> j < Suc idx + length cs
               \<and> parseToolCallArguments P (AToolCall (cs ! (j - Suc idx))) = None
            then Some (parse_failure (cs ! (j - Suc idx))) else aget results j)"
      and l: "length R \<le> max (length results) (Suc idx + length cs)"
      by blast
    have nth: "\<And>j. Suc idx \<le> j \<Longrightarrow> (c # cs) ! (j - idx) = cs ! (j - Suc idx)"
      by (simp add: nth_Cons' Suc_diff_le)
    have "collect_calls P (map AToolCall (c # cs)) idx valid results
            = Inr (valid @ ((idx, call) # V), R)"
      using Some eq by simp
    moreover have "\<forall>j call'. (j, call') \<in> set ((idx, call) # V) \<longleftrightarrow>
           (idx \<le> j \<and> j < idx + length (c # cs)
            \<and> parseToolCallArguments P (AToolCall ((c # cs) ! (j - idx))) = Some call')"
    proof (intro allI)
      fix j call'
      show "(j, call') \<in> set ((idx, call) # V) \<longleftrightarrow>
           (idx \<le> j \<and> j < idx + length (c # cs)
            \<and> parseToolCallArguments P (AToolCall ((c # cs) ! (j - idx))) = Some call')"
      proof (cases "j = idx")
        case True
        with Some v show ?thesis by auto
      next
        case False
        then have "idx \<le> j \<longleftrightarrow> Suc idx \<le> j" by auto
        with False v nth [of j] show ?thesis by auto
      qed
    qed
    moreover have "\<forall>j. aget R j =
           (if idx \<le> j \<and> j < idx + length (c # cs)
               \<and> parseToolCallArguments P (AToolCall ((c # cs) ! (j - idx))) = None
            then Some (parse_failure ((c # cs) ! (j - idx))) else aget results j)"
    proof (intro allI)
      fix j
      show "aget R j =
           (if idx \<le> j \<and> j < idx + length (c # cs)
               \<and> parseToolCallArguments P (AToolCall ((c # cs) ! (j - idx))) = None
            then Some (parse_failure ((c # cs) ! (j - idx))) else aget results j)"
      proof (cases "j = idx")
        case True
        with Some r show ?thesis by auto
      next
        case False
        then have "idx \<le> j \<longleftrightarrow> Suc idx \<le> j" by auto
        with False r nth [of j] show ?thesis by auto
      qed
    qed
    moreover from l have "length R \<le> max (length results) (idx + length (c # cs))" by simp
    ultimately show ?thesis by blast
  next
    case None
    let ?res = "js_set results idx (parse_failure c)"
    from Cons [of "Suc idx" valid ?res] obtain V R where
      eq: "collect_calls P (map AToolCall cs) (Suc idx) valid ?res = Inr (valid @ V, R)"
      and v: "\<forall>j call. (j, call) \<in> set V \<longleftrightarrow>
           (Suc idx \<le> j \<and> j < Suc idx + length cs
            \<and> parseToolCallArguments P (AToolCall (cs ! (j - Suc idx))) = Some call)"
      and r: "\<forall>j. aget R j =
           (if Suc idx \<le> j \<and> j < Suc idx + length cs
               \<and> parseToolCallArguments P (AToolCall (cs ! (j - Suc idx))) = None
            then Some (parse_failure (cs ! (j - Suc idx))) else aget ?res j)"
      and l: "length R \<le> max (length ?res) (Suc idx + length cs)"
      by blast
    have nth: "\<And>j. Suc idx \<le> j \<Longrightarrow> (c # cs) ! (j - idx) = cs ! (j - Suc idx)"
      by (simp add: nth_Cons' Suc_diff_le)
    have "collect_calls P (map AToolCall (c # cs)) idx valid results = Inr (valid @ V, R)"
      using None eq by (simp add: parse_failure_def)
    moreover have "\<forall>j call'. (j, call') \<in> set V \<longleftrightarrow>
           (idx \<le> j \<and> j < idx + length (c # cs)
            \<and> parseToolCallArguments P (AToolCall ((c # cs) ! (j - idx))) = Some call')"
    proof (intro allI)
      fix j call'
      show "(j, call') \<in> set V \<longleftrightarrow>
           (idx \<le> j \<and> j < idx + length (c # cs)
            \<and> parseToolCallArguments P (AToolCall ((c # cs) ! (j - idx))) = Some call')"
      proof (cases "j = idx")
        case True
        with None v show ?thesis by auto
      next
        case False
        then have "idx \<le> j \<longleftrightarrow> Suc idx \<le> j" by auto
        with False v nth [of j] show ?thesis by auto
      qed
    qed
    moreover have "\<forall>j. aget R j =
           (if idx \<le> j \<and> j < idx + length (c # cs)
               \<and> parseToolCallArguments P (AToolCall ((c # cs) ! (j - idx))) = None
            then Some (parse_failure ((c # cs) ! (j - idx))) else aget results j)"
    proof (intro allI)
      fix j
      show "aget R j =
           (if idx \<le> j \<and> j < idx + length (c # cs)
               \<and> parseToolCallArguments P (AToolCall ((c # cs) ! (j - idx))) = None
            then Some (parse_failure ((c # cs) ! (j - idx))) else aget results j)"
      proof (cases "j = idx")
        case True
        with None r show ?thesis by (auto simp: aget_js_set)
      next
        case False
        then have "idx \<le> j \<longleftrightarrow> Suc idx \<le> j" by auto
        with False r nth [of j] show ?thesis by (auto simp: aget_js_set)
      qed
    qed
    moreover from l have "length R \<le> max (length results) (idx + length (c # cs))"
      by (auto simp: length_js_set)
    ultimately show ?thesis by blast
  qed
qed


lemma aget_fold:
  assumes "\<forall>(j, call) \<in> set xs. G j = Some call"
  shows "aget (fold (\<lambda>ic acc. js_set acc (fst ic) (f (snd ic))) xs R) i =
           (if i \<in> fst ` set xs then Some (f (the (G i))) else aget R i)"
  using assms
proof (induction xs arbitrary: R)
  case Nil
  show ?case by simp
next
  case (Cons x xs)
  from Cons.prems have gx: "G (fst x) = Some (snd x)" by (cases x) simp
  from Cons.prems have "\<forall>(j, call) \<in> set xs. G j = Some call" by simp
  from Cons.IH [OF this, of "js_set R (fst x) (f (snd x))"] gx
  show ?case by (auto simp: aget_js_set)
qed

lemma length_fold_le:
  assumes "\<forall>(j, call) \<in> set xs. j < n" and "length R \<le> n"
  shows "length (fold (\<lambda>ic acc. js_set acc (fst ic) (f (snd ic))) xs R) \<le> n"
  using assms
proof (induction xs arbitrary: R)
  case Nil
  then show ?case by simp
next
  case (Cons x xs)
  from Cons.prems have "fst x < n" by (cases x) simp
  with Cons.prems have "length (js_set R (fst x) (f (snd x))) \<le> n"
    by (simp add: length_js_set)
  moreover from Cons.prems have "\<forall>(j, call) \<in> set xs. j < n" by simp
  ultimately show ?case using Cons.IH by simp
qed

lemma executeToolCalls_array:
  assumes mc: "0 < opt_maxConcurrent opts"
  shows "\<exists>results.
           executeToolCalls P tools opts (map AToolCall toolCalls) = Some (Inr results)
         \<and> length results \<le> length toolCalls
         \<and> (\<forall>i r. i < length results \<and> results ! i = Some r \<longrightarrow>
               r = own_result P tools (opt_timeout opts) (toolCalls ! i))
         \<and> (opt_continueOnError opts \<longrightarrow>
               results = map (\<lambda>c. Some (own_result P tools (opt_timeout opts) c)) toolCalls)"
proof -
  let ?n = "length toolCalls"
  let ?G = "\<lambda>j. parseToolCallArguments P (AToolCall (toolCalls ! j))"
  let ?f = "\<lambda>call. executeWithTimeout P tools call (opt_timeout opts)"
  let ?F = "\<lambda>ic acc. js_set acc (fst ic) (?f (snd ic))"
  from collect_calls_shape [of P toolCalls 0 "[]" "[]"] obtain V R where
    col: "collect_calls P (map AToolCall toolCalls) 0 [] [] = Inr (V, R)"
    and v: "\<And>j call. (j, call) \<in> set V \<longleftrightarrow> (j < ?n \<and> ?G j = Some call)"
    and r: "\<And>j. aget R j = (if j < ?n \<and> ?G j = None
                               then Some (parse_failure (toolCalls ! j)) else None)"
    and l: "length R \<le> ?n"
    by (auto simp: aget_def)
  from batch_loop_fold [OF mc, where P = P and tools = tools and valid = V and i = 0
      and results = R] obtain k where
    bl: "batch_loop P tools opts V 0 R = Some (fold ?F (take k V) R)"
    and kc: "opt_continueOnError opts \<longrightarrow> length V \<le> k"
    by auto
  let ?res = "fold ?F (take k V) R"
  have sub: "set (take k V) \<subseteq> set V" by (rule set_take_subset)
  have gk: "\<forall>(j, call) \<in> set (take k V). ?G j = Some call"
    using sub v by auto
  have bk: "\<forall>(j, call) \<in> set (take k V). j < ?n"
    using sub v by auto
  have ag: "\<And>i. aget ?res i =
      (if i \<in> fst ` set (take k V) then Some (?f (the (?G i))) else aget R i)"
    by (rule aget_fold [OF gk])
  have run: "executeToolCalls P tools opts (map AToolCall toolCalls) = Some (Inr ?res)"
    by (simp add: executeToolCalls_def col bl)
  have len: "length ?res \<le> ?n"
    by (rule length_fold_le [OF bk l])
  have own: "\<And>i r. aget ?res i = Some r \<Longrightarrow>
                r = own_result P tools (opt_timeout opts) (toolCalls ! i)"
  proof -
    fix i r
    assume a: "aget ?res i = Some r"
    show "r = own_result P tools (opt_timeout opts) (toolCalls ! i)"
    proof (cases "i \<in> fst ` set (take k V)")
      case True
      then obtain call where "(i, call) \<in> set (take k V)" by force
      with gk have "?G i = Some call" by auto
      with a True ag [of i] show ?thesis by (simp add: own_result_def)
    next
      case False
      with a ag [of i] r [of i] show ?thesis
        by (auto simp: own_result_def split: if_splits)
    qed
  qed
  have pos: "\<forall>i r. i < length ?res \<and> ?res ! i = Some r \<longrightarrow>
               r = own_result P tools (opt_timeout opts) (toolCalls ! i)"
    using own by (auto simp: aget_def)
  have all: "opt_continueOnError opts \<longrightarrow>
               ?res = map (\<lambda>c. Some (own_result P tools (opt_timeout opts) c)) toolCalls"
  proof
    assume "opt_continueOnError opts"
    with kc have tk: "take k V = V" by simp
    have every: "\<And>i. i < ?n \<Longrightarrow>
        aget ?res i = Some (own_result P tools (opt_timeout opts) (toolCalls ! i))"
    proof -
      fix i
      assume i: "i < ?n"
      show "aget ?res i = Some (own_result P tools (opt_timeout opts) (toolCalls ! i))"
      proof (cases "?G i")
        case None
        with v have "i \<notin> fst ` set V" by force
        with None i ag [of i] r [of i] tk show ?thesis by (simp add: own_result_def)
      next
        case (Some call)
        with i v have "(i, call) \<in> set V" by simp
        then have "i \<in> fst ` set V" by force
        with Some ag [of i] tk show ?thesis by (simp add: own_result_def)
      qed
    qed
    have "?n \<le> length ?res"
    proof (cases "?n")
      case 0
      then show ?thesis by simp
    next
      case (Suc m)
      with every [of m] have "aget ?res m \<noteq> None" by simp
      then have "m < length ?res" by (auto simp: aget_def split: if_splits)
      with Suc show ?thesis by simp
    qed
    with len have leq: "length ?res = ?n" by simp
    show "?res = map (\<lambda>c. Some (own_result P tools (opt_timeout opts) c)) toolCalls"
    proof (rule nth_equalityI)
      show "length ?res = length (map (\<lambda>c. Some (own_result P tools (opt_timeout opts) c)) toolCalls)"
        using leq by simp
    next
      fix i
      assume "i < length ?res"
      with leq every [of i] show "?res ! i =
          map (\<lambda>c. Some (own_result P tools (opt_timeout opts) c)) toolCalls ! i"
        by (simp add: aget_def)
    qed
  qed
  from run len pos all show ?thesis by blast
qed

lemma own_result_identity:
  "tr_toolCallId (own_result P tools timeout c) = tc_id c
   \<and> tr_name (own_result P tools timeout c) = tc_name c"
  by (auto simp: own_result_def parse_failure_def parseToolCallArguments.simps
        executeWithTimeout_def execute_def
        split: option.splits sum.splits HandlerOutcome.splits)

lemma own_result_timed_out:
  assumes "parseToolCallArguments P (AToolCall c) = Some call"
    and "\<not> settles_first P tools call timeout"
  shows "\<exists>e. tr_error (own_result P tools timeout c) = Some e \<and> sublist ''timed out'' e"
proof -
  let ?e = "(''Tool '' @ dq @ pc_name call @ dq @ '' execution '') @ ''timed out'' @
            ('' after '' @ Number_toString P timeout @ ''ms'')"
  from assms have "tr_error (own_result P tools timeout c) = Some ?e"
    by (simp add: own_result_def executeWithTimeout_def)
  moreover have "sublist ''timed out'' ?e" by (rule sublist_appendI)
  ultimately show ?thesis by blast
qed

lemma own_result_settled:
  assumes "parseToolCallArguments P (AToolCall c) = Some call"
    and "settles_first P tools call timeout"
  shows "own_result P tools timeout c = execute P tools call"
  using assms by (simp add: own_result_def executeWithTimeout_def)

lemma timer_delay_in_range:
  assumes "1 \<le> timeout" and "timeout \<le> 2147483647"
  shows "timer_delay timeout = \<lfloor>timeout\<rfloor>"
  using assms by (simp add: timer_delay_def js_to_integer_def)

text \<open>
  C6 (as amended). For every list of tool calls and every \<open>maxConcurrent \<ge> 1\<close>,
  \<open>executeToolCalls\<close> returns an array no longer than the input in which every defined
  position \<open>i\<close> holds the result of the \<open>i\<close>-th call, with that call's id, whatever
  the batching. A call whose handler awaits and has not settled when the callback of its
  timer runs has an error containing \<open>timed out\<close> at its position; the timer is due
  \<open>timeoutMs\<close> (cut to whole milliseconds) after the call when \<open>timeoutMs\<close> is from 1 to
  \<open>2^31 - 1\<close>, and after 1 millisecond otherwise. A call whose handler does not await,
  or settles before the callback of the timer runs, has the result of \<open>execute\<close> at its
  position, however long the handler took. With \<open>continueOnError\<close> (the default) the
  array is the list of the calls' results, in input order; in particular, for 3 calls
  with \<open>maxConcurrent = 2\<close> whose 2nd call is still waiting when its timer fires, it
  has length 3 and \<open>results[1].error\<close> contains \<open>timed out\<close>.
\<close>

theorem executeToolCalls_in_order:
  assumes "0 < opt_maxConcurrent opts"
  shows "\<exists>results.
           executeToolCalls P tools opts (map AToolCall toolCalls) = Some (Inr results)
         \<and> length results \<le> length toolCalls
         \<and> (\<forall>i r. i < length results \<and> results ! i = Some r \<longrightarrow>
               r = own_result P tools (opt_timeout opts) (toolCalls ! i)
               \<and> tr_toolCallId r = tc_id (toolCalls ! i))
         \<and> (\<forall>i r call tool. i < length results \<and> results ! i = Some r
               \<and> parseToolCallArguments P (AToolCall (toolCalls ! i)) = Some call
               \<and> tools (pc_name call) = Some tool \<and> enabled tool
               \<and> awaits (handler tool (pc_arguments call))
               \<and> timer_delay (opt_timeout opts) + int (timer_late P call)
                   \<le> int (took (handler tool (pc_arguments call))) \<longrightarrow>
               (\<exists>e. tr_error r = Some e \<and> sublist ''timed out'' e))
         \<and> (1 \<le> opt_timeout opts \<and> opt_timeout opts \<le> 2147483647 \<longrightarrow>
               timer_delay (opt_timeout opts) = \<lfloor>opt_timeout opts\<rfloor>)
         \<and> (opt_timeout opts < 1 \<or> 2147483647 < opt_timeout opts \<longrightarrow>
               timer_delay (opt_timeout opts) = 1)
         \<and> (\<forall>i r call tool. i < length results \<and> results ! i = Some r
               \<and> parseToolCallArguments P (AToolCall (toolCalls ! i)) = Some call
               \<and> tools (pc_name call) = Some tool \<and> enabled tool
               \<and> (awaits (handler tool (pc_arguments call)) \<longrightarrow>
                    int (took (handler tool (pc_arguments call)))
                      < timer_delay (opt_timeout opts) + int (timer_late P call)) \<longrightarrow>
               r = execute P tools call)
         \<and> (opt_continueOnError opts \<longrightarrow>
               results = map (\<lambda>c. Some (own_result P tools (opt_timeout opts) c)) toolCalls)
         \<and> (\<forall>call tool. opt_continueOnError opts \<and> opt_maxConcurrent opts = 2
               \<and> length toolCalls = 3
               \<and> parseToolCallArguments P (AToolCall (toolCalls ! 1)) = Some call
               \<and> tools (pc_name call) = Some tool \<and> enabled tool
               \<and> awaits (handler tool (pc_arguments call))
               \<and> timer_delay (opt_timeout opts) + int (timer_late P call)
                   \<le> int (took (handler tool (pc_arguments call))) \<longrightarrow>
               length results = 3
               \<and> (\<exists>r e. results ! 1 = Some r \<and> tr_toolCallId r = tc_id (toolCalls ! 1)
                     \<and> tr_error r = Some e \<and> sublist ''timed out'' e))"
proof -
  from executeToolCalls_array [OF assms, of P tools toolCalls] obtain results where
    run: "executeToolCalls P tools opts (map AToolCall toolCalls) = Some (Inr results)"
    and len: "length results \<le> length toolCalls"
    and pos: "\<And>i r. i < length results \<Longrightarrow> results ! i = Some r \<Longrightarrow>
               r = own_result P tools (opt_timeout opts) (toolCalls ! i)"
    and all: "opt_continueOnError opts \<longrightarrow>
               results = map (\<lambda>c. Some (own_result P tools (opt_timeout opts) c)) toolCalls"
    by blast
  have late: "\<not> settles_first P tools call (opt_timeout opts)"
    if "tools (pc_name call) = Some tool" "enabled tool"
      "awaits (handler tool (pc_arguments call))"
      "timer_delay (opt_timeout opts) + int (timer_late P call)
         \<le> int (took (handler tool (pc_arguments call)))"
    for call tool
    using that by (simp add: settles_first_def)
  have early: "settles_first P tools call (opt_timeout opts)"
    if "tools (pc_name call) = Some tool" "enabled tool"
      "awaits (handler tool (pc_arguments call)) \<longrightarrow>
         int (took (handler tool (pc_arguments call)))
           < timer_delay (opt_timeout opts) + int (timer_late P call)"
    for call tool
    using that by (auto simp: settles_first_def)
  have a: "\<forall>i r. i < length results \<and> results ! i = Some r \<longrightarrow>
               r = own_result P tools (opt_timeout opts) (toolCalls ! i)
               \<and> tr_toolCallId r = tc_id (toolCalls ! i)"
  proof (intro allI impI)
    fix i r
    assume "i < length results \<and> results ! i = Some r"
    with pos have "r = own_result P tools (opt_timeout opts) (toolCalls ! i)" by blast
    then show "r = own_result P tools (opt_timeout opts) (toolCalls ! i)
               \<and> tr_toolCallId r = tc_id (toolCalls ! i)"
      by (simp add: own_result_identity)
  qed
  have b: "\<forall>i r call tool. i < length results \<and> results ! i = Some r
               \<and> parseToolCallArguments P (AToolCall (toolCalls ! i)) = Some call
               \<and> tools (pc_name call) = Some tool \<and> enabled tool
               \<and> awaits (handler tool (pc_arguments call))
               \<and> timer_delay (opt_timeout opts) + int (timer_late P call)
                   \<le> int (took (handler tool (pc_arguments call))) \<longrightarrow>
               (\<exists>e. tr_error r = Some e \<and> sublist ''timed out'' e)"
  proof (intro allI impI)
    fix i r call tool
    assume h: "i < length results \<and> results ! i = Some r
               \<and> parseToolCallArguments P (AToolCall (toolCalls ! i)) = Some call
               \<and> tools (pc_name call) = Some tool \<and> enabled tool
               \<and> awaits (handler tool (pc_arguments call))
               \<and> timer_delay (opt_timeout opts) + int (timer_late P call)
                   \<le> int (took (handler tool (pc_arguments call)))"
    then have r: "r = own_result P tools (opt_timeout opts) (toolCalls ! i)"
      using pos by blast
    from h have "\<not> settles_first P tools call (opt_timeout opts)"
      using late by blast
    with h own_result_timed_out [of P "toolCalls ! i" call tools "opt_timeout opts"]
    show "\<exists>e. tr_error r = Some e \<and> sublist ''timed out'' e"
      unfolding r by blast
  qed
  have d1: "1 \<le> opt_timeout opts \<and> opt_timeout opts \<le> 2147483647 \<longrightarrow>
               timer_delay (opt_timeout opts) = \<lfloor>opt_timeout opts\<rfloor>"
    using timer_delay_in_range by blast
  have d2: "opt_timeout opts < 1 \<or> 2147483647 < opt_timeout opts \<longrightarrow>
               timer_delay (opt_timeout opts) = 1"
    by (auto simp: timer_delay_def)
  have e: "\<forall>i r call tool. i < length results \<and> results ! i = Some r
               \<and> parseToolCallArguments P (AToolCall (toolCalls ! i)) = Some call
               \<and> tools (pc_name call) = Some tool \<and> enabled tool
               \<and> (awaits (handler tool (pc_arguments call)) \<longrightarrow>
                    int (took (handler tool (pc_arguments call)))
                      < timer_delay (opt_timeout opts) + int (timer_late P call)) \<longrightarrow>
               r = execute P tools call"
  proof (intro allI impI)
    fix i r call tool
    assume h: "i < length results \<and> results ! i = Some r
               \<and> parseToolCallArguments P (AToolCall (toolCalls ! i)) = Some call
               \<and> tools (pc_name call) = Some tool \<and> enabled tool
               \<and> (awaits (handler tool (pc_arguments call)) \<longrightarrow>
                    int (took (handler tool (pc_arguments call)))
                      < timer_delay (opt_timeout opts) + int (timer_late P call))"
    then have r: "r = own_result P tools (opt_timeout opts) (toolCalls ! i)"
      using pos by blast
    from h have "settles_first P tools call (opt_timeout opts)"
      using early by blast
    with h own_result_settled [of P "toolCalls ! i" call tools "opt_timeout opts"]
    show "r = execute P tools call"
      unfolding r by blast
  qed
  have c: "\<forall>call tool. opt_continueOnError opts \<and> opt_maxConcurrent opts = 2
               \<and> length toolCalls = 3
               \<and> parseToolCallArguments P (AToolCall (toolCalls ! 1)) = Some call
               \<and> tools (pc_name call) = Some tool \<and> enabled tool
               \<and> awaits (handler tool (pc_arguments call))
               \<and> timer_delay (opt_timeout opts) + int (timer_late P call)
                   \<le> int (took (handler tool (pc_arguments call))) \<longrightarrow>
               length results = 3
               \<and> (\<exists>r e. results ! 1 = Some r \<and> tr_toolCallId r = tc_id (toolCalls ! 1)
                     \<and> tr_error r = Some e \<and> sublist ''timed out'' e)"
  proof (intro allI impI)
    fix call tool
    assume h: "opt_continueOnError opts \<and> opt_maxConcurrent opts = 2
               \<and> length toolCalls = 3
               \<and> parseToolCallArguments P (AToolCall (toolCalls ! 1)) = Some call
               \<and> tools (pc_name call) = Some tool \<and> enabled tool
               \<and> awaits (handler tool (pc_arguments call))
               \<and> timer_delay (opt_timeout opts) + int (timer_late P call)
                   \<le> int (took (handler tool (pc_arguments call)))"
    with all have eq: "results = map (\<lambda>c. Some (own_result P tools (opt_timeout opts) c)) toolCalls"
      by simp
    with h have l3: "length results = 3" by simp
    from eq h have r1: "results ! 1 = Some (own_result P tools (opt_timeout opts) (toolCalls ! 1))"
      by simp
    from h have "\<not> settles_first P tools call (opt_timeout opts)"
      using late by blast
    with h own_result_timed_out [of P "toolCalls ! 1" call tools "opt_timeout opts"]
    obtain e where "tr_error (own_result P tools (opt_timeout opts) (toolCalls ! 1)) = Some e"
      and "sublist ''timed out'' e" by blast
    with l3 r1 show "length results = 3
               \<and> (\<exists>r e. results ! 1 = Some r \<and> tr_toolCallId r = tc_id (toolCalls ! 1)
                     \<and> tr_error r = Some e \<and> sublist ''timed out'' e)"
      by (simp add: own_result_identity)
  qed
  from run len a b d1 d2 e all c show ?thesis by blast
qed

text \<open>
  The scenario on the sample registry and platform: the 1st call answers at once, the
  2nd waits a minute for its answer and loses the race after 30 seconds, the 3rd
  throws.
\<close>

theorem executeToolCalls_in_order_witness:
  "0 < opt_maxConcurrent \<lparr>opt_timeout = 30000, opt_maxConcurrent = 2, opt_continueOnError = True\<rparr>
   \<and> parseToolCallArguments basic_platform (AToolCall (sample_toolcall ''c2'' ''slow'' ''{}''))
       = Some (sample_call ''c2'' ''slow'')
   \<and> map_option (\<lambda>tool. (enabled tool, awaits (handler tool (JObj [])),
                           took (handler tool (JObj [])))) (sample_tools ''slow'')
       = Some (True, True, 60000)
   \<and> timer_delay 30000 + int (timer_late basic_platform (sample_call ''c2'' ''slow'')) = 30000
   \<and> executeToolCalls basic_platform sample_tools
        \<lparr>opt_timeout = 30000, opt_maxConcurrent = 2, opt_continueOnError = True\<rparr>
        (map AToolCall [sample_toolcall ''c1'' ''calculator'' ''{}'',
                        sample_toolcall ''c2'' ''slow'' ''{}'',
                        sample_toolcall ''c3'' ''broken'' ''{}''])
      = Some (Inr
          [Some \<lparr>tr_toolCallId = ''c1'', tr_name = ''calculator'',
                 tr_result = JObj [(''result'', JNum 4)], tr_error = None,
                 tr_executionTimeMs = Some 0\<rparr>,
           Some \<lparr>tr_toolCallId = ''c2'', tr_name = ''slow'', tr_result = JNull,
                 tr_error = Some (''Tool '' @ [CHR 0x22] @ ''slow'' @ [CHR 0x22]
                                  @ '' execution timed out after 30000ms''),
                 tr_executionTimeMs = None\<rparr>,
           Some \<lparr>tr_toolCallId = ''c3'', tr_name = ''broken'', tr_result = JNull,
                 tr_error = Some ''boom'', tr_executionTimeMs = Some 1\<rparr>])"
proof -
  define opts where "opts = \<lparr>opt_timeout = 30000, opt_maxConcurrent = 2, opt_continueOnError = True\<rparr>"
  define calls where "calls = [sample_toolcall ''c1'' ''calculator'' ''{}'',
                 sample_toolcall ''c2'' ''slow'' ''{}'',
                 sample_toolcall ''c3'' ''broken'' ''{}'']"
  define expected where "expected =
          [Some \<lparr>tr_toolCallId = ''c1'', tr_name = ''calculator'',
                 tr_result = JObj [(''result'', JNum 4)], tr_error = None,
                 tr_executionTimeMs = Some 0\<rparr>,
           Some \<lparr>tr_toolCallId = ''c2'', tr_name = ''slow'', tr_result = JNull,
                 tr_error = Some (''Tool '' @ [CHR 0x22] @ ''slow'' @ [CHR 0x22]
                                  @ '' execution timed out after 30000ms''),
                 tr_executionTimeMs = None\<rparr>,
           Some \<lparr>tr_toolCallId = ''c3'', tr_name = ''broken'', tr_result = JNull,
                 tr_error = Some ''boom'', tr_executionTimeMs = Some 1\<rparr>]"
  have h: "0 < opt_maxConcurrent opts" by (simp add: opts_def)
  have c: "opt_continueOnError opts" by (simp add: opts_def)
  have p2: "parseToolCallArguments basic_platform (AToolCall (sample_toolcall ''c2'' ''slow'' ''{}''))
       = Some (sample_call ''c2'' ''slow'')"
    by (simp add: parseToolCallArguments.simps basic_platform_def parse_basic_def
          sample_toolcall_def sample_call_def)
  have t2: "map_option (\<lambda>tool. (enabled tool, awaits (handler tool (JObj [])),
                           took (handler tool (JObj [])))) (sample_tools ''slow'')
       = Some (True, True, 60000)"
    by (simp add: sample_tools_def)
  have d2: "timer_delay 30000 + int (timer_late basic_platform (sample_call ''c2'' ''slow'')) = 30000"
    by (simp add: timer_delay_def js_to_integer_def basic_platform_def)
  from executeToolCalls_in_order [OF h, of basic_platform sample_tools calls] c
  obtain results where
    run: "executeToolCalls basic_platform sample_tools opts (map AToolCall calls)
            = Some (Inr results)"
    and all: "results = map (\<lambda>c. Some (own_result basic_platform sample_tools (opt_timeout opts) c)) calls"
    by blast
  have n: "show_number 30000 = ''30000''"
    by (simp add: show_number_def show_int_def show_nat.simps)
  have r1: "own_result basic_platform sample_tools 30000 (sample_toolcall ''c1'' ''calculator'' ''{}'')
      = \<lparr>tr_toolCallId = ''c1'', tr_name = ''calculator'',
                 tr_result = JObj [(''result'', JNum 4)], tr_error = None,
                 tr_executionTimeMs = Some 0\<rparr>"
    by (simp add: own_result_def parseToolCallArguments.simps basic_platform_def parse_basic_def
          sample_toolcall_def sample_tools_def executeWithTimeout_def execute_def
          settles_first_def sample_elapsed_def)
  have r2: "own_result basic_platform sample_tools 30000 (sample_toolcall ''c2'' ''slow'' ''{}'')
      = \<lparr>tr_toolCallId = ''c2'', tr_name = ''slow'', tr_result = JNull,
                 tr_error = Some (''Tool '' @ [CHR 0x22] @ ''slow'' @ [CHR 0x22]
                                  @ '' execution timed out after 30000ms''),
                 tr_executionTimeMs = None\<rparr>"
    by (simp add: own_result_def parseToolCallArguments.simps basic_platform_def parse_basic_def
          sample_toolcall_def sample_tools_def executeWithTimeout_def
          settles_first_def timer_delay_def js_to_integer_def dq_def n)
  have r3: "own_result basic_platform sample_tools 30000 (sample_toolcall ''c3'' ''broken'' ''{}'')
      = \<lparr>tr_toolCallId = ''c3'', tr_name = ''broken'', tr_result = JNull,
                 tr_error = Some ''boom'', tr_executionTimeMs = Some 1\<rparr>"
    by (simp add: own_result_def parseToolCallArguments.simps basic_platform_def parse_basic_def
          sample_toolcall_def sample_tools_def executeWithTimeout_def execute_def
          settles_first_def timer_delay_def js_to_integer_def sample_elapsed_def)
  have "opt_timeout opts = 30000" by (simp add: opts_def)
  with all have "results = expected"
    unfolding expected_def calls_def by (simp only: list.map r1 r2 r3)
  with run have "executeToolCalls basic_platform sample_tools opts (map AToolCall calls)
            = Some (Inr expected)" by simp
  with h p2 t2 d2 show ?thesis unfolding opts_def calls_def expected_def by simp
qed

text \<open>
  The claim as stated fails for a handler that does not await: the tool \<open>busy\<close>
  computes for a minute, twice the timeout of 30 seconds, and no timer can fire before
  it has returned. With 3 calls, \<open>maxConcurrent = 2\<close> and \<open>busy\<close> as the 2nd, the 2nd
  result is the tool's value, without an error.
\<close>

theorem executeToolCalls_busy_not_timed_out:
  "opt_timeout \<lparr>opt_timeout = 30000, opt_maxConcurrent = 2, opt_continueOnError = True\<rparr>
     < of_nat (took busy_run)
   \<and> executeToolCalls basic_platform sample_tools
        \<lparr>opt_timeout = 30000, opt_maxConcurrent = 2, opt_continueOnError = True\<rparr>
        (map AToolCall [sample_toolcall ''c1'' ''calculator'' ''{}'',
                        sample_toolcall ''c2'' ''busy'' ''{}'',
                        sample_toolcall ''c3'' ''broken'' ''{}''])
      = Some (Inr
          [Some \<lparr>tr_toolCallId = ''c1'', tr_name = ''calculator'',
                 tr_result = JObj [(''result'', JNum 4)], tr_error = None,
                 tr_executionTimeMs = Some 0\<rparr>,
           Some \<lparr>tr_toolCallId = ''c2'', tr_name = ''busy'', tr_result = JStr ''ready'',
                 tr_error = None, tr_executionTimeMs = Some 60000\<rparr>,
           Some \<lparr>tr_toolCallId = ''c3'', tr_name = ''broken'', tr_result = JNull,
                 tr_error = Some ''boom'', tr_executionTimeMs = Some 1\<rparr>])"
proof -
  define opts where "opts = \<lparr>opt_timeout = 30000, opt_maxConcurrent = 2, opt_continueOnError = True\<rparr>"
  define calls where "calls = [sample_toolcall ''c1'' ''calculator'' ''{}'',
                 sample_toolcall ''c2'' ''busy'' ''{}'',
                 sample_toolcall ''c3'' ''broken'' ''{}'']"
  define expected where "expected =
          [Some \<lparr>tr_toolCallId = ''c1'', tr_name = ''calculator'',
                 tr_result = JObj [(''result'', JNum 4)], tr_error = None,
                 tr_executionTimeMs = Some 0\<rparr>,
           Some \<lparr>tr_toolCallId = ''c2'', tr_name = ''busy'', tr_result = JStr ''ready'',
                 tr_error = None, tr_executionTimeMs = Some 60000\<rparr>,
           Some \<lparr>tr_toolCallId = ''c3'', tr_name = ''broken'', tr_result = JNull,
                 tr_error = Some ''boom'', tr_executionTimeMs = Some 1\<rparr>]"
  have h: "0 < opt_maxConcurrent opts" by (simp add: opts_def)
  have c: "opt_continueOnError opts" by (simp add: opts_def)
  have long: "opt_timeout opts < of_nat (took busy_run)"
    by (simp add: opts_def busy_run_def)
  from executeToolCalls_array [OF h, of basic_platform sample_tools calls] c
  obtain results where
    run: "executeToolCalls basic_platform sample_tools opts (map AToolCall calls)
            = Some (Inr results)"
    and all: "results = map (\<lambda>c. Some (own_result basic_platform sample_tools (opt_timeout opts) c)) calls"
    by blast
  have r1: "own_result basic_platform sample_tools 30000 (sample_toolcall ''c1'' ''calculator'' ''{}'')
      = \<lparr>tr_toolCallId = ''c1'', tr_name = ''calculator'',
                 tr_result = JObj [(''result'', JNum 4)], tr_error = None,
                 tr_executionTimeMs = Some 0\<rparr>"
    by (simp add: own_result_def parseToolCallArguments.simps basic_platform_def parse_basic_def
          sample_toolcall_def sample_tools_def executeWithTimeout_def execute_def
          settles_first_def sample_elapsed_def)
  have r2: "own_result basic_platform sample_tools 30000 (sample_toolcall ''c2'' ''busy'' ''{}'')
      = \<lparr>tr_toolCallId = ''c2'', tr_name = ''busy'', tr_result = JStr ''ready'',
                 tr_error = None, tr_executionTimeMs = Some 60000\<rparr>"
    by (simp add: own_result_def parseToolCallArguments.simps basic_platform_def parse_basic_def
          sample_toolcall_def sample_tools_def executeWithTimeout_def execute_def
          settles_first_def busy_run_def sample_elapsed_def)
  have r3: "own_result basic_platform sample_tools 30000 (sample_toolcall ''c3'' ''broken'' ''{}'')
      = \<lparr>tr_toolCallId = ''c3'', tr_name = ''broken'', tr_result = JNull,
                 tr_error = Some ''boom'', tr_executionTimeMs = Some 1\<rparr>"
    by (simp add: own_result_def parseToolCallArguments.simps basic_platform_def parse_basic_def
          sample_toolcall_def sample_tools_def executeWithTimeout_def execute_def
          settles_first_def timer_delay_def js_to_integer_def sample_elapsed_def)
  have "opt_timeout opts = 30000" by (simp add: opts_def)
  with all have "results = expected"
    unfolding expected_def calls_def by (simp only: list.map r1 r2 r3)
  with run have "executeToolCalls basic_platform sample_tools opts (map AToolCall calls)
            = Some (Inr expected)" by simp
  with long show ?thesis unfolding opts_def calls_def expected_def by simp
qed



subsection \<open>Agent orchestrator\<close>

text \<open>
  The orchestrator calls \<open>executeToolCalls\<close> with a \<open>ParsedToolCall\<close>; the executor
  reads \<open>function.name\<close> of it and throws. Every tool call of a run therefore ends in
  the \<open>catch\<close> of \<open>executeTools\<close>, with the engine's \<open>TypeError\<close> as its error.
\<close>

lemma executeToolCalls_parsed:
  "executeToolCalls P tools opts [AParsedCall call] = Some (Inl (type_error_message ''name''))"
  by (simp add: executeToolCalls_def parseToolCallArguments.simps)

lemma try_execute_throws:
  "try_execute P tools toolCall =
     Some (Inl (case JSON_parse P (arguments_or_default toolCall) of
                  Inl msg \<Rightarrow> msg
                | Inr _ \<Rightarrow> type_error_message ''name''))"
  by (simp add: try_execute_def executeToolCalls_parsed split: sum.splits)

lemma tool_call_body_facts:
  "\<exists>evs run' sg. tool_call_body P tools agent toolCall run = Some (evs, run', sg)
     \<and> currentTurn run' = currentTurn run
     \<and> totalToolCalls run' = totalToolCalls run
     \<and> (run_messages run \<noteq> [] \<longrightarrow> run_messages run' \<noteq> [])
     \<and> (\<forall>e \<in> set evs. \<not> is_done e \<and> \<not> is_error e)"
  by (auto simp: tool_call_body_def try_execute_throws createStepEvent_def
        createToolCallEvent_def Let_def split: sum.splits)

lemma executeTools_facts:
  "\<exists>evs run' thrown. executeTools P tools agent toolCalls run = Some (evs, run', thrown)
     \<and> currentTurn run' = currentTurn run
     \<and> totalToolCalls run' = totalToolCalls run
     \<and> (run_messages run \<noteq> [] \<longrightarrow> run_messages run' \<noteq> [])
     \<and> (\<forall>e \<in> set evs. \<not> is_done e \<and> \<not> is_error e)"
proof (induction toolCalls arbitrary: run)
  case Nil
  show ?case by simp
next
  case (Cons toolCall rest)
  from tool_call_body_facts [of P tools agent toolCall run] obtain evs r1 sg where
    b: "tool_call_body P tools agent toolCall run = Some (evs, r1, sg)"
    and f: "currentTurn r1 = currentTurn run" "totalToolCalls r1 = totalToolCalls run"
       "run_messages run \<noteq> [] \<longrightarrow> run_messages r1 \<noteq> []"
       "\<forall>e \<in> set evs. \<not> is_done e \<and> \<not> is_error e"
    by blast
  show ?case
  proof (cases sg)
    case Proceed
    from Cons [of r1] obtain evs' r2 thrown where
      "executeTools P tools agent rest r1 = Some (evs', r2, thrown)"
      "currentTurn r2 = currentTurn r1" "totalToolCalls r2 = totalToolCalls r1"
      "run_messages r1 \<noteq> [] \<longrightarrow> run_messages r2 \<noteq> []"
      "\<forall>e \<in> set evs'. \<not> is_done e \<and> \<not> is_error e"
      by blast
    with b f Proceed show ?thesis by auto
  next
    case Stop
    with b f show ?thesis by auto
  next
    case (Raise msg)
    with b f show ?thesis by auto
  qed
qed

lemma catch_turn_facts:
  "\<exists>evs' run' x. catch_turn agent evs run msg = (evs', run', x)
     \<and> currentTurn run' = currentTurn run
     \<and> totalToolCalls run' = totalToolCalls run
     \<and> run_messages run' = run_messages run
     \<and> ((\<forall>e \<in> set evs. \<not> is_done e \<and> \<not> is_error e)
          \<longrightarrow> (\<forall>e \<in> set evs'. \<not> is_done e \<and> \<not> is_error e))"
  by (auto simp: catch_turn_def createStepEvent_def)

lemma limit_tool_calls_facts:
  "\<exists>evs' run'. limit_tool_calls P agent m toolCalls run = (evs', run')
     \<and> currentTurn run' = currentTurn run
     \<and> totalToolCalls run' = totalToolCalls run
     \<and> (run_messages run \<noteq> [] \<longrightarrow> run_messages run' \<noteq> [])
     \<and> (\<forall>e \<in> set evs'. \<not> is_done e \<and> \<not> is_error e)"
  by (auto simp: limit_tool_calls_def createStepEvent_def Let_def)

lemma confirmation_gate_facts:
  "\<exists>evs' run'. confirmation_gate agent run = (evs', run')
     \<and> currentTurn run' = currentTurn run
     \<and> totalToolCalls run' = totalToolCalls run
     \<and> run_messages run' = run_messages run
     \<and> (\<forall>e \<in> set evs'. \<not> is_done e \<and> \<not> is_error e)"
  by (auto simp: confirmation_gate_def createStatusEvent_def Let_def)

lemma tool_turn_facts:
  "\<exists>evs' run' x. tool_turn P tools agent evs m toolCalls run = Some (evs', run', x)
     \<and> currentTurn run' = currentTurn run
     \<and> totalToolCalls run' = totalToolCalls run + length toolCalls
     \<and> (run_messages run \<noteq> [] \<longrightarrow> run_messages run' \<noteq> [])
     \<and> ((\<forall>e \<in> set evs. \<not> is_done e \<and> \<not> is_error e)
          \<longrightarrow> (\<forall>e \<in> set evs'. \<not> is_done e \<and> \<not> is_error e))"
proof -
  define run1 where "run1 = run\<lparr>totalToolCalls := totalToolCalls run + length toolCalls\<rparr>"
  from limit_tool_calls_facts [of P agent m toolCalls run1] obtain evs2 run2 where
    l: "limit_tool_calls P agent m toolCalls run1 = (evs2, run2)"
       "currentTurn run2 = currentTurn run1" "totalToolCalls run2 = totalToolCalls run1"
       "run_messages run1 \<noteq> [] \<longrightarrow> run_messages run2 \<noteq> []"
       "\<forall>e \<in> set evs2. \<not> is_done e \<and> \<not> is_error e"
    by blast
  from confirmation_gate_facts [of agent run2] obtain evs3 run3 where
    c: "confirmation_gate agent run2 = (evs3, run3)"
       "currentTurn run3 = currentTurn run2" "totalToolCalls run3 = totalToolCalls run2"
       "run_messages run3 = run_messages run2"
       "\<forall>e \<in> set evs3. \<not> is_done e \<and> \<not> is_error e"
    by blast
  from executeTools_facts [of P tools agent toolCalls run3] obtain tevs r4 thrown where
    e: "executeTools P tools agent toolCalls run3 = Some (tevs, r4, thrown)"
    and ef: "currentTurn r4 = currentTurn run3"
       "totalToolCalls r4 = totalToolCalls run3"
       "run_messages run3 \<noteq> [] \<longrightarrow> run_messages r4 \<noteq> []"
       "\<forall>e \<in> set tevs. \<not> is_done e \<and> \<not> is_error e"
    by blast
  have r1: "currentTurn run1 = currentTurn run"
    "totalToolCalls run1 = totalToolCalls run + length toolCalls"
    "run_messages run1 = run_messages run"
    by (simp_all add: run1_def)
  have ct: "currentTurn r4 = currentTurn run"
    using ef(1) c(2) l(2) r1(1) by simp
  have tt: "totalToolCalls r4 = totalToolCalls run + length toolCalls"
    using ef(2) c(3) l(3) r1(2) by simp
  have ms: "run_messages run \<noteq> [] \<longrightarrow> run_messages r4 \<noteq> []"
    using ef(3) c(4) l(4) r1(3) by simp
  have cl: "(\<forall>e \<in> set evs. \<not> is_done e \<and> \<not> is_error e)
          \<longrightarrow> (\<forall>e \<in> set (evs @ evs2 @ evs3 @ tevs). \<not> is_done e \<and> \<not> is_error e)"
    using l(5) c(5) ef(4) by auto
  show ?thesis
  proof (cases thrown)
    case None
    then have u: "tool_turn P tools agent evs m toolCalls run =
        Some (evs @ evs2 @ evs3 @ tevs, r4,
              if autoContinue (behavior agent) then NextTurn else BreakLoop)"
      by (simp add: tool_turn_def Let_def run1_def [symmetric] l(1) c(1) e)
    show ?thesis
      by (intro exI conjI) (rule u, rule ct, rule tt, rule ms, rule cl)
  next
    case (Some msg)
    then have u: "tool_turn P tools agent evs m toolCalls run =
        Some (catch_turn agent (evs @ evs2 @ evs3 @ tevs) r4 msg)"
      by (simp add: tool_turn_def Let_def run1_def [symmetric] l(1) c(1) e)
    from catch_turn_facts [of agent "evs @ evs2 @ evs3 @ tevs" r4 msg]
    obtain evs' r5 x where
      k: "catch_turn agent (evs @ evs2 @ evs3 @ tevs) r4 msg = (evs', r5, x)"
      and kf: "currentTurn r5 = currentTurn r4" "totalToolCalls r5 = totalToolCalls r4"
      "run_messages r5 = run_messages r4"
      "(\<forall>e \<in> set (evs @ evs2 @ evs3 @ tevs). \<not> is_done e \<and> \<not> is_error e)
          \<longrightarrow> (\<forall>e \<in> set evs'. \<not> is_done e \<and> \<not> is_error e)"
      by blast
    from u k have u': "tool_turn P tools agent evs m toolCalls run = Some (evs', r5, x)"
      by simp
    show ?thesis
    proof (intro exI conjI)
      show "tool_turn P tools agent evs m toolCalls run = Some (evs', r5, x)" by (rule u')
      show "currentTurn r5 = currentTurn run" using kf(1) ct by simp
      show "totalToolCalls r5 = totalToolCalls run + length toolCalls" using kf(2) tt by simp
      show "run_messages run \<noteq> [] \<longrightarrow> run_messages r5 \<noteq> []" using kf(3) ms by simp
      show "(\<forall>e \<in> set evs. \<not> is_done e \<and> \<not> is_error e)
          \<longrightarrow> (\<forall>e \<in> set evs'. \<not> is_done e \<and> \<not> is_error e)"
        using kf(4) cl by blast
    qed
  qed
qed


lemma consume_stream_events:
  "consume_stream ds acc pending = (evs, a, p) \<Longrightarrow>
   \<forall>e \<in> set evs. \<not> is_done e \<and> \<not> is_error e"
proof (induction ds arbitrary: acc pending evs a p)
  case Nil
  then show ?case by simp
next
  case (Cons d ds)
  from Cons.prems obtain acc' pending' evs' a' p' where
    r: "consume_stream ds acc' pending' = (evs', a', p')"
    and e: "evs = (if delta_content d \<noteq> [] then [ContentEvent (delta_content d)] else []) @ evs'"
    by (auto simp: Let_def split: prod.splits)
  from Cons.IH [OF r] have "\<forall>e \<in> set evs'. \<not> is_done e \<and> \<not> is_error e" .
  with e show ?case by auto
qed

lemma begin_turn_facts:
  "\<exists>ev run'. begin_turn run = (ev, run')
     \<and> currentTurn run' = Suc (currentTurn run)
     \<and> totalToolCalls run' = totalToolCalls run
     \<and> run_messages run' = run_messages run
     \<and> run_status run' = run_status run
     \<and> \<not> is_done ev \<and> \<not> is_error ev"
  by (simp add: begin_turn_def createStepEvent_def Let_def)

lemma final_turn_facts:
  "\<exists>evs' run'. final_turn evs acc run = (evs', run', ReturnLoop)
     \<and> currentTurn run' = currentTurn run
     \<and> totalToolCalls run' = totalToolCalls run
     \<and> run_messages run' = run_messages run
     \<and> ((\<forall>e \<in> set evs. \<not> is_done e \<and> \<not> is_error e)
          \<longrightarrow> (\<forall>e \<in> set evs'. \<not> is_done e \<and> \<not> is_error e))"
  by (simp add: final_turn_def createStepEvent_def Let_def)

lemma run_turn_facts:
  "\<exists>evs run' x. run_turn P tools agent chat aborted run = Some (evs, run', x)
     \<and> (aborted (currentTurn run) \<longrightarrow>
          x = ReturnLoop \<and> currentTurn run' = currentTurn run
          \<and> totalToolCalls run' = totalToolCalls run)
     \<and> (\<not> aborted (currentTurn run) \<longrightarrow>
          currentTurn run' = Suc (currentTurn run)
          \<and> totalToolCalls run' =
              totalToolCalls run + requested_calls (chat (Suc (currentTurn run))))
     \<and> (run_messages run \<noteq> [] \<longrightarrow> run_messages run' \<noteq> [])
     \<and> (\<forall>e \<in> set evs. \<not> is_done e \<and> \<not> is_error e)"
proof (cases "aborted (currentTurn run)")
  case True
  then show ?thesis by (simp add: run_turn_def createStatusEvent_def)
next
  case False
  from begin_turn_facts [of run] obtain ev0 run2 where
    b: "begin_turn run = (ev0, run2)"
    and r2: "currentTurn run2 = Suc (currentTurn run)" "totalToolCalls run2 = totalToolCalls run"
    "run_messages run2 = run_messages run"
    and e0: "\<not> is_done ev0 \<and> \<not> is_error ev0"
    by blast
  define response where "response = chat (Suc (currentTurn run))"
  obtain cevs acc pending where cs: "consume_stream (deltas response) [] None = (cevs, acc, pending)"
    by (cases "consume_stream (deltas response) [] None") auto
  from consume_stream_events [OF cs]
  have cclean: "\<forall>e \<in> set cevs. \<not> is_done e \<and> \<not> is_error e" .
  with e0 have pre: "\<forall>e \<in> set (ev0 # cevs). \<not> is_done e \<and> \<not> is_error e" by simp
  show ?thesis
  proof (cases "failure response")
    case (Some msg)
    have u: "run_turn P tools agent chat aborted run =
        Some (catch_turn agent (ev0 # cevs) run2 msg)"
      using False Some cs
      by (simp add: run_turn_def b r2(1) Let_def response_def)
    from Some have rq: "requested_calls response = 0"
      by (simp add: requested_calls_def assistant_calls_def)
    from catch_turn_facts [of agent "ev0 # cevs" run2 msg]
    obtain evs' r5 x where
      k: "catch_turn agent (ev0 # cevs) run2 msg = (evs', r5, x)"
      and kf: "currentTurn r5 = currentTurn run2" "totalToolCalls r5 = totalToolCalls run2"
      "run_messages r5 = run_messages run2"
      "(\<forall>e \<in> set (ev0 # cevs). \<not> is_done e \<and> \<not> is_error e)
          \<longrightarrow> (\<forall>e \<in> set evs'. \<not> is_done e \<and> \<not> is_error e)"
      by blast
    show ?thesis
    proof (intro exI conjI)
      show "run_turn P tools agent chat aborted run = Some (evs', r5, x)" using u k by simp
      show "aborted (currentTurn run) \<longrightarrow>
          x = ReturnLoop \<and> currentTurn r5 = currentTurn run
          \<and> totalToolCalls r5 = totalToolCalls run" using False by simp
      show "\<not> aborted (currentTurn run) \<longrightarrow>
          currentTurn r5 = Suc (currentTurn run)
          \<and> totalToolCalls r5 =
              totalToolCalls run + requested_calls (chat (Suc (currentTurn run)))"
        using kf(1,2) r2 rq by (simp add: response_def)
      show "run_messages run \<noteq> [] \<longrightarrow> run_messages r5 \<noteq> []" using kf(3) r2 by simp
      show "\<forall>e \<in> set evs'. \<not> is_done e \<and> \<not> is_error e" using kf(4) pre by blast
    qed
  next
    case None
    define am where "am = finalize_message acc pending"
    define run3 where "run3 = run2\<lparr>run_messages := run_messages run2 @ [am]\<rparr>"
    define calls where "calls = (case msg_tool_calls am of None \<Rightarrow> [] | Some cs \<Rightarrow> cs)"
    have r3: "currentTurn run3 = Suc (currentTurn run)" "totalToolCalls run3 = totalToolCalls run"
      "run_messages run3 \<noteq> []"
      by (simp_all add: run3_def r2)
    from None cs have rq: "requested_calls response = length calls"
      by (simp add: requested_calls_def assistant_calls_def calls_def am_def)
    show ?thesis
    proof (cases "hasToolCalls am")
      case True
      have u: "run_turn P tools agent chat aborted run =
          tool_turn P tools agent (ev0 # cevs) am calls run3"
        using False None cs True
        by (simp add: run_turn_def b r2(1) Let_def response_def am_def run3_def calls_def)
      from tool_turn_facts [of P tools agent "ev0 # cevs" am calls run3]
      obtain evs' r5 x where
        k: "tool_turn P tools agent (ev0 # cevs) am calls run3 = Some (evs', r5, x)"
        and kf: "currentTurn r5 = currentTurn run3"
        "totalToolCalls r5 = totalToolCalls run3 + length calls"
        "run_messages run3 \<noteq> [] \<longrightarrow> run_messages r5 \<noteq> []"
        "(\<forall>e \<in> set (ev0 # cevs). \<not> is_done e \<and> \<not> is_error e)
            \<longrightarrow> (\<forall>e \<in> set evs'. \<not> is_done e \<and> \<not> is_error e)"
        by blast
      show ?thesis
      proof (intro exI conjI)
        show "run_turn P tools agent chat aborted run = Some (evs', r5, x)" using u k by simp
        show "aborted (currentTurn run) \<longrightarrow>
            x = ReturnLoop \<and> currentTurn r5 = currentTurn run
            \<and> totalToolCalls r5 = totalToolCalls run" using False by simp
        show "\<not> aborted (currentTurn run) \<longrightarrow>
            currentTurn r5 = Suc (currentTurn run)
            \<and> totalToolCalls r5 =
                totalToolCalls run + requested_calls (chat (Suc (currentTurn run)))"
          using kf(1,2) r3 rq by (simp add: response_def)
        show "run_messages run \<noteq> [] \<longrightarrow> run_messages r5 \<noteq> []" using kf(3) r3 by simp
        show "\<forall>e \<in> set evs'. \<not> is_done e \<and> \<not> is_error e" using kf(4) pre by blast
      qed
    next
      case nt: False
      have u: "run_turn P tools agent chat aborted run =
          Some (final_turn (ev0 # cevs) acc run3)"
        using False None cs nt
        by (simp add: run_turn_def b r2(1) Let_def response_def am_def run3_def)
      from nt have "calls = []"
        by (auto simp: hasToolCalls_def calls_def split: option.splits)
      with rq have rq0: "requested_calls response = 0" by simp
      from final_turn_facts [of "ev0 # cevs" acc run3] obtain evs' r5 where
        k: "final_turn (ev0 # cevs) acc run3 = (evs', r5, ReturnLoop)"
        and kf: "currentTurn r5 = currentTurn run3" "totalToolCalls r5 = totalToolCalls run3"
        "run_messages r5 = run_messages run3"
        "(\<forall>e \<in> set (ev0 # cevs). \<not> is_done e \<and> \<not> is_error e)
            \<longrightarrow> (\<forall>e \<in> set evs'. \<not> is_done e \<and> \<not> is_error e)"
        by blast
      show ?thesis
      proof (intro exI conjI)
        show "run_turn P tools agent chat aborted run = Some (evs', r5, ReturnLoop)"
          using u k by simp
        show "aborted (currentTurn run) \<longrightarrow>
            ReturnLoop = ReturnLoop \<and> currentTurn r5 = currentTurn run
            \<and> totalToolCalls r5 = totalToolCalls run" using False by simp
        show "\<not> aborted (currentTurn run) \<longrightarrow>
            currentTurn r5 = Suc (currentTurn run)
            \<and> totalToolCalls r5 =
                totalToolCalls run + requested_calls (chat (Suc (currentTurn run)))"
          using kf(1,2) r3 rq0 by (simp add: response_def)
        show "run_messages run \<noteq> [] \<longrightarrow> run_messages r5 \<noteq> []" using kf(3) r3 by simp
        show "\<forall>e \<in> set evs'. \<not> is_done e \<and> \<not> is_error e" using kf(4) pre by blast
      qed
    qed
  qed
qed


lemma agent_loop_facts:
  "\<exists>evs run' x. agent_loop P tools agent chat aborted run = Some (evs, run', x)
     \<and> currentTurn run \<le> currentTurn run'
     \<and> (int (currentTurn run) \<le> \<lceil>maxTurns (behavior agent)\<rceil>
          \<longrightarrow> int (currentTurn run') \<le> \<lceil>maxTurns (behavior agent)\<rceil>)
     \<and> totalToolCalls run' =
          totalToolCalls run
          + (\<Sum>t = Suc (currentTurn run)..currentTurn run'. requested_calls (chat t))
     \<and> (run_messages run \<noteq> [] \<longrightarrow> run_messages run' \<noteq> [])
     \<and> (\<forall>e \<in> set evs. \<not> is_done e \<and> \<not> is_error e)"
proof (induction P tools agent chat aborted run rule: agent_loop.induct)
  case (1 P tools agent chat aborted run)
  show ?case
  proof (cases "of_nat (currentTurn run) < maxTurns (behavior agent)")
    case False
    then have "agent_loop P tools agent chat aborted run = Some ([], run, FellThrough)"
      by (subst agent_loop.simps) simp
    then show ?thesis by simp
  next
    case True
    from run_turn_facts [of P tools agent chat aborted run] obtain evs r1 x1 where
      t: "run_turn P tools agent chat aborted run = Some (evs, r1, x1)"
      and ab: "aborted (currentTurn run) \<longrightarrow>
          x1 = ReturnLoop \<and> currentTurn r1 = currentTurn run
          \<and> totalToolCalls r1 = totalToolCalls run"
      and go: "\<not> aborted (currentTurn run) \<longrightarrow>
          currentTurn r1 = Suc (currentTurn run)
          \<and> totalToolCalls r1 =
              totalToolCalls run + requested_calls (chat (Suc (currentTurn run)))"
      and ms: "run_messages run \<noteq> [] \<longrightarrow> run_messages r1 \<noteq> []"
      and cl: "\<forall>e \<in> set evs. \<not> is_done e \<and> \<not> is_error e"
      by blast
    from True have "of_int (int (currentTurn run)) < maxTurns (behavior agent)" by simp
    then have below: "int (currentTurn run) < \<lceil>maxTurns (behavior agent)\<rceil>"
      by (simp only: less_ceiling_iff)
    have one: "currentTurn run \<le> currentTurn r1
       \<and> int (currentTurn r1) \<le> \<lceil>maxTurns (behavior agent)\<rceil>
       \<and> totalToolCalls r1 =
            totalToolCalls run
            + (\<Sum>t = Suc (currentTurn run)..currentTurn r1. requested_calls (chat t))"
      using ab go below by (cases "aborted (currentTurn run)") auto
    show ?thesis
    proof (cases x1)
      case NextTurn
      with ab have na: "\<not> aborted (currentTurn run)" by auto
      with go have c1: "currentTurn r1 = Suc (currentTurn run)" by simp
      from "1.IH" [OF True t refl refl NextTurn] obtain evs' r2 x2 where
        l: "agent_loop P tools agent chat aborted r1 = Some (evs', r2, x2)"
        and lf: "currentTurn r1 \<le> currentTurn r2"
          "int (currentTurn r1) \<le> \<lceil>maxTurns (behavior agent)\<rceil>
             \<longrightarrow> int (currentTurn r2) \<le> \<lceil>maxTurns (behavior agent)\<rceil>"
          "totalToolCalls r2 =
             totalToolCalls r1
             + (\<Sum>t = Suc (currentTurn r1)..currentTurn r2. requested_calls (chat t))"
          "run_messages r1 \<noteq> [] \<longrightarrow> run_messages r2 \<noteq> []"
          "\<forall>e \<in> set evs'. \<not> is_done e \<and> \<not> is_error e"
        by blast
      have u: "agent_loop P tools agent chat aborted run = Some (evs @ evs', r2, x2)"
        using True t NextTurn l by (subst agent_loop.simps) simp
      from c1 lf(1) have le: "Suc (currentTurn run) \<le> currentTurn r2" by simp
      have "(\<Sum>t = Suc (currentTurn run)..currentTurn r2. requested_calls (chat t)) =
            requested_calls (chat (Suc (currentTurn run)))
            + (\<Sum>t = Suc (Suc (currentTurn run))..currentTurn r2. requested_calls (chat t))"
        using le by (rule sum.atLeast_Suc_atMost)
      with lf(3) go na c1 have tot: "totalToolCalls r2 =
          totalToolCalls run
          + (\<Sum>t = Suc (currentTurn run)..currentTurn r2. requested_calls (chat t))"
        by simp
      show ?thesis
      proof (intro exI conjI)
        show "agent_loop P tools agent chat aborted run = Some (evs @ evs', r2, x2)" by (rule u)
        show "currentTurn run \<le> currentTurn r2" using le by simp
        show "int (currentTurn run) \<le> \<lceil>maxTurns (behavior agent)\<rceil>
          \<longrightarrow> int (currentTurn r2) \<le> \<lceil>maxTurns (behavior agent)\<rceil>" using lf(2) one by simp
        show "totalToolCalls r2 =
          totalToolCalls run
          + (\<Sum>t = Suc (currentTurn run)..currentTurn r2. requested_calls (chat t))"
          by (rule tot)
        show "run_messages run \<noteq> [] \<longrightarrow> run_messages r2 \<noteq> []" using ms lf(4) by simp
        show "\<forall>e \<in> set (evs @ evs'). \<not> is_done e \<and> \<not> is_error e" using cl lf(5) by auto
      qed
    next
      case BreakLoop
      have u: "agent_loop P tools agent chat aborted run = Some (evs, r1, FellThrough)"
        using True t BreakLoop by (subst agent_loop.simps) simp
      show ?thesis
        by (intro exI conjI) (rule u, simp_all add: one ms cl)
    next
      case ReturnLoop
      have u: "agent_loop P tools agent chat aborted run = Some (evs, r1, Returned)"
        using True t ReturnLoop by (subst agent_loop.simps) simp
      show ?thesis
        by (intro exI conjI) (rule u, simp_all add: one ms cl)
    qed
  qed
qed

lemma executeAgentLoop_facts:
  "\<exists>evs run'. executeAgentLoop P tools agent chat aborted run = Some (evs, run')
     \<and> (int (currentTurn run) \<le> \<lceil>maxTurns (behavior agent)\<rceil>
          \<longrightarrow> int (currentTurn run') \<le> \<lceil>maxTurns (behavior agent)\<rceil>)
     \<and> totalToolCalls run' =
          totalToolCalls run
          + (\<Sum>t = Suc (currentTurn run)..currentTurn run'. requested_calls (chat t))
     \<and> (\<forall>e \<in> set evs. \<not> is_done e \<and> \<not> is_error e)"
proof -
  from agent_loop_facts [of P tools agent chat aborted run] obtain evs r1 x where
    l: "agent_loop P tools agent chat aborted run = Some (evs, r1, x)"
    and lf: "int (currentTurn run) \<le> \<lceil>maxTurns (behavior agent)\<rceil>
          \<longrightarrow> int (currentTurn r1) \<le> \<lceil>maxTurns (behavior agent)\<rceil>"
       "totalToolCalls r1 =
          totalToolCalls run
          + (\<Sum>t = Suc (currentTurn run)..currentTurn r1. requested_calls (chat t))"
       "\<forall>e \<in> set evs. \<not> is_done e \<and> \<not> is_error e"
    by blast
  show ?thesis
  proof (cases x)
    case Returned
    with l have "executeAgentLoop P tools agent chat aborted run = Some (evs, r1)"
      by (simp add: executeAgentLoop_def)
    with lf show ?thesis by simp
  next
    case FellThrough
    show ?thesis
    proof (cases "run_status r1 \<noteq> Completed \<and> run_status r1 \<noteq> Failed")
      case True
      with l FellThrough have "executeAgentLoop P tools agent chat aborted run =
          Some (evs, r1\<lparr>run_status := Completed,
                        run_output := Some (last_content (run_messages r1))\<rparr>)"
        by (simp add: executeAgentLoop_def)
      with lf show ?thesis by simp
    next
      case False
      with l FellThrough have "executeAgentLoop P tools agent chat aborted run = Some (evs, r1)"
        by (auto simp: executeAgentLoop_def)
      with lf show ?thesis by simp
    qed
  qed
qed

lemma length_js_slice: "length (js_slice xs a b) \<le> length xs"
proof -
  have "length (take n (drop s xs)) \<le> length xs" for n s :: nat
    by (simp add: min.coboundedI1)
  then show ?thesis by (simp only: js_slice_def Let_def)
qed

lemma kept_calls_le: "kept_calls agent response \<le> requested_calls response"
  by (simp add: kept_calls_def requested_calls_def length_js_slice)

text \<open>
  C5 (as amended). For every run that \<open>runAgent\<close> starts (it returns for every input),
  with \<open>maxTurns \<ge> 0\<close> (the schema asks for at least 1): \<open>currentTurn\<close> is at most
  \<open>maxTurns\<close> rounded up to a whole number, hence less than \<open>maxTurns + 1\<close>, and at
  most \<open>maxTurns\<close> when \<open>maxTurns\<close> is a whole number; \<open>totalToolCalls\<close> is the sum
  over the turns run of the number of tool calls in the turn's assistant message before
  the truncation, which is at least the sum of the numbers after the truncation. The
  bound is an invariant of the loop: from every state within the bound the loop ends
  within the bound, and the counter never decreases, so every state on the way is within
  the bound too.
\<close>

theorem runAgent_counters:
  assumes "agents orch agentId = Some agent" and "0 \<le> maxTurns (behavior agent)"
  shows "(\<exists>evs result.
           runAgent orch servers P tools chat aborted runId agentId request = Some (evs, result)
         \<and> (\<forall>run. result = Some run \<longrightarrow>
               int (currentTurn run) \<le> \<lceil>maxTurns (behavior agent)\<rceil>
               \<and> of_nat (currentTurn run) < maxTurns (behavior agent) + 1
               \<and> (maxTurns (behavior agent) \<in> \<int> \<longrightarrow>
                    of_nat (currentTurn run) \<le> maxTurns (behavior agent))
               \<and> totalToolCalls run = (\<Sum>t = 1..currentTurn run. requested_calls (chat t))
               \<and> (\<Sum>t = 1..currentTurn run. kept_calls agent (chat t)) \<le> totalToolCalls run))
       \<and> (\<forall>run :: AgentRun. int (currentTurn run) \<le> \<lceil>maxTurns (behavior agent)\<rceil> \<longrightarrow>
             (\<exists>evs run' x. agent_loop P tools agent chat aborted run = Some (evs, run', x)
                \<and> currentTurn run \<le> currentTurn run'
                \<and> int (currentTurn run') \<le> \<lceil>maxTurns (behavior agent)\<rceil>))"
proof -
  let ?m = "maxTurns (behavior agent)"
  have inv: "\<forall>run :: AgentRun. int (currentTurn run) \<le> \<lceil>?m\<rceil> \<longrightarrow>
             (\<exists>evs run' x. agent_loop P tools agent chat aborted run = Some (evs, run', x)
                \<and> currentTurn run \<le> currentTurn run'
                \<and> int (currentTurn run') \<le> \<lceil>?m\<rceil>)"
  proof (intro allI impI)
    fix run :: AgentRun
    assume "int (currentTurn run) \<le> \<lceil>?m\<rceil>"
    with agent_loop_facts [of P tools agent chat aborted run]
    show "\<exists>evs run' x. agent_loop P tools agent chat aborted run = Some (evs, run', x)
                \<and> currentTurn run \<le> currentTurn run'
                \<and> int (currentTurn run') \<le> \<lceil>?m\<rceil>"
      by blast
  qed
  define run0 where "run0 =
     \<lparr>run_id = runId, run_agentId = agentId, run_status = Executing,
      run_input = req_input request, run_steps = [], run_output = None,
      run_error = None,
      run_messages = [plain_message System (systemPrompt agent)] @
                     (case req_contextMessages request of None \<Rightarrow> [] | Some ms \<Rightarrow> ms) @
                     [plain_message User (req_input request)],
      currentTurn = 0, totalToolCalls = 0\<rparr>"
  from assms(2) have "0 \<le> \<lceil>?m\<rceil>" by simp
  with executeAgentLoop_facts [of P tools agent chat aborted run0] obtain evs r where
    e: "executeAgentLoop P tools agent chat aborted run0 = Some (evs, r)"
    and b: "int (currentTurn r) \<le> \<lceil>?m\<rceil>"
    and t: "totalToolCalls r = (\<Sum>t = Suc 0..currentTurn r. requested_calls (chat t))"
    by (auto simp: run0_def)
  from b have "(of_int (int (currentTurn r)) :: rat) \<le> of_int \<lceil>?m\<rceil>"
    by (simp only: of_int_le_iff)
  then have b1: "(of_nat (currentTurn r) :: rat) \<le> of_int \<lceil>?m\<rceil>" by simp
  have "of_int \<lceil>?m\<rceil> < ?m + 1" using ceiling_correct [of ?m] by simp
  with b1 have b2: "of_nat (currentTurn r) < ?m + 1" by simp
  have b3: "?m \<in> \<int> \<longrightarrow> of_nat (currentTurn r) \<le> ?m"
  proof
    assume "?m \<in> \<int>"
    then obtain z where z: "?m = of_int z" by (rule Ints_cases)
    then have "of_int \<lceil>?m\<rceil> = ?m" by simp
    with b1 show "of_nat (currentTurn r) \<le> ?m" by simp
  qed
  have k: "(\<Sum>t = 1..currentTurn r. kept_calls agent (chat t))
           \<le> (\<Sum>t = 1..currentTurn r. requested_calls (chat t))"
    by (rule sum_mono) (rule kept_calls_le)
  have "\<exists>evs result.
           runAgent orch servers P tools chat aborted runId agentId request = Some (evs, result)
         \<and> (\<forall>run. result = Some run \<longrightarrow>
               int (currentTurn run) \<le> \<lceil>?m\<rceil>
               \<and> of_nat (currentTurn run) < ?m + 1
               \<and> (?m \<in> \<int> \<longrightarrow> of_nat (currentTurn run) \<le> ?m)
               \<and> totalToolCalls run = (\<Sum>t = 1..currentTurn run. requested_calls (chat t))
               \<and> (\<Sum>t = 1..currentTurn run. kept_calls agent (chat t)) \<le> totalToolCalls run)"
  proof (cases "int (activeRuns orch) \<ge> maxConcurrentRuns orch
                \<or> servers (req_serverId request) = None
                \<or> resolve_model request agent = []")
    case True
    with assms(1) show ?thesis
      by (auto simp: runAgent_def split: option.splits)
  next
    case False
    with assms(1) e have "runAgent orch servers P tools chat aborted runId agentId request =
        Some (StatusEvent Executing # evs @ [DoneEvent r], Some r)"
      by (auto simp: runAgent_def createStatusEvent_def Let_def run0_def split: option.splits)
    with b b2 b3 t k show ?thesis by simp
  qed
  with inv show ?thesis by (rule conjI [rotated])
qed

text \<open>The definitions that a concrete run unfolds.\<close>

lemmas run_defs =
  runAgent_def executeAgentLoop_def agent_loop.simps run_turn_def tool_turn_def catch_turn_def
  begin_turn_def final_turn_def finalize_message_def limit_tool_calls_def confirmation_gate_def
  tool_call_body_def try_execute_def executeToolCalls_def parseToolCallArguments.simps
  createStepEvent_def createStatusEvent_def createToolCallEvent_def arguments_or_default_def
  hasToolCalls_def resolve_model_def plain_message_def last_content_def
  sample_agent_def sample_orchestrator_def sample_servers_def sample_request_def
  tool_response_def text_response_def failed_response_def two_calls_then_text_def
  sample_toolcall_def basic_platform_def parse_basic_def js_slice_def js_index_def
  js_to_integer_def show_number_def
  show_nat.simps show_int_def type_error_message_def sq_def Let_def event_type_def

text \<open>
  The theorem on a run of two turns: the first answer holds two tool calls (limit 1), the
  second is a text.
\<close>

theorem runAgent_counters_witness:
  "agents (sample_orchestrator (sample_agent 1 3 True False)) ''agent1''
     = Some (sample_agent 1 3 True False)
   \<and> 0 \<le> maxTurns (behavior (sample_agent 1 3 True False))
   \<and> maxTurns (behavior (sample_agent 1 3 True False)) \<in> \<int>
   \<and> map_option (\<lambda>(evs, r). map_option (\<lambda>run. (currentTurn run, totalToolCalls run)) r)
        (runAgent (sample_orchestrator (sample_agent 1 3 True False)) sample_servers
           basic_platform sample_tools two_calls_then_text (\<lambda>n. False) ''run1'' ''agent1''
           sample_request)
      = Some (Some (2, 2))
   \<and> (of_nat 2 :: rat) \<le> 3
   \<and> (\<Sum>t = 1..2. requested_calls (two_calls_then_text t)) = 2
   \<and> (\<Sum>t = 1..2. kept_calls (sample_agent 1 3 True False) (two_calls_then_text t)) \<le> 2
   \<and> int (currentTurn sample_run) \<le> \<lceil>maxTurns (behavior (sample_agent 1 3 True False))\<rceil>
   \<and> (\<exists>evs run' x.
         agent_loop basic_platform sample_tools (sample_agent 1 3 True False)
           two_calls_then_text (\<lambda>n. False) sample_run = Some (evs, run', x)
         \<and> currentTurn sample_run \<le> currentTurn run'
         \<and> int (currentTurn run') \<le> 3)"
proof -
  define A where "A = sample_agent 1 3 True False"
  define R where "R = runAgent (sample_orchestrator A) sample_servers
           basic_platform sample_tools two_calls_then_text (\<lambda>n. False) ''run1'' ''agent1''
           sample_request"
  have h1: "agents (sample_orchestrator A) ''agent1'' = Some A"
    by (simp add: sample_orchestrator_def)
  have m: "maxTurns (behavior A) = 3" by (simp add: A_def sample_agent_def)
  have h2: "0 \<le> maxTurns (behavior A)" by (simp add: m)
  have whole: "maxTurns (behavior A) \<in> \<int>" by (simp add: m)
  have ev: "map_option (\<lambda>(evs, r). map_option (\<lambda>run. (currentTurn run, totalToolCalls run)) r) R
      = Some (Some (2, 2))"
    unfolding R_def A_def by (simp add: run_defs)
  note inst = runAgent_counters [OF h1 h2, of sample_servers basic_platform sample_tools
      two_calls_then_text "\<lambda>n. False" "''run1''" sample_request]
  from inst have "\<exists>evs result. R = Some (evs, result)
         \<and> (\<forall>run. result = Some run \<longrightarrow>
               int (currentTurn run) \<le> \<lceil>maxTurns (behavior A)\<rceil>
               \<and> of_nat (currentTurn run) < maxTurns (behavior A) + 1
               \<and> (maxTurns (behavior A) \<in> \<int> \<longrightarrow>
                    of_nat (currentTurn run) \<le> maxTurns (behavior A))
               \<and> totalToolCalls run = (\<Sum>t = 1..currentTurn run. requested_calls (two_calls_then_text t))
               \<and> (\<Sum>t = 1..currentTurn run. kept_calls A (two_calls_then_text t)) \<le> totalToolCalls run)"
    unfolding R_def by (rule conjunct1)
  then obtain evs result where
    eq: "R = Some (evs, result)"
    and p: "\<And>run. result = Some run \<Longrightarrow>
               (maxTurns (behavior A) \<in> \<int> \<longrightarrow>
                    of_nat (currentTurn run) \<le> maxTurns (behavior A))
               \<and> totalToolCalls run = (\<Sum>t = 1..currentTurn run. requested_calls (two_calls_then_text t))
               \<and> (\<Sum>t = 1..currentTurn run. kept_calls A (two_calls_then_text t)) \<le> totalToolCalls run"
    by blast
  from ev eq obtain run where r: "result = Some run" "currentTurn run = 2" "totalToolCalls run = 2"
    by (cases result) auto
  from p [OF r(1)] r(2,3) whole have sums:
    "(of_nat 2 :: rat) \<le> maxTurns (behavior A)
     \<and> (\<Sum>t = 1..2. requested_calls (two_calls_then_text t)) = 2
     \<and> (\<Sum>t = 1..2. kept_calls A (two_calls_then_text t)) \<le> 2"
    by simp
  have h3: "int (currentTurn sample_run) \<le> \<lceil>maxTurns (behavior A)\<rceil>"
    by (simp add: m sample_run_def)
  from inst have "\<forall>run :: AgentRun. int (currentTurn run) \<le> \<lceil>maxTurns (behavior A)\<rceil> \<longrightarrow>
             (\<exists>evs run' x. agent_loop basic_platform sample_tools A two_calls_then_text
                  (\<lambda>n. False) run = Some (evs, run', x)
                \<and> currentTurn run \<le> currentTurn run'
                \<and> int (currentTurn run') \<le> \<lceil>maxTurns (behavior A)\<rceil>)"
    by (rule conjunct2)
  with h3 have "\<exists>evs run' x. agent_loop basic_platform sample_tools A two_calls_then_text
                  (\<lambda>n. False) sample_run = Some (evs, run', x)
                \<and> currentTurn sample_run \<le> currentTurn run'
                \<and> int (currentTurn run') \<le> \<lceil>maxTurns (behavior A)\<rceil>"
    by blast
  then have inv: "\<exists>evs run' x. agent_loop basic_platform sample_tools A two_calls_then_text
                  (\<lambda>n. False) sample_run = Some (evs, run', x)
                \<and> currentTurn sample_run \<le> currentTurn run'
                \<and> int (currentTurn run') \<le> 3"
    unfolding m by simp
  from sums have s1: "(of_nat 2 :: rat) \<le> 3" by simp
  from h1 h2 whole ev s1 sums h3 inv show ?thesis unfolding R_def A_def by simp
qed

text \<open>
  The claim as stated fails for a limit that is not a whole number, which the schema
  accepts: with \<open>maxTurns = 1.5\<close> the loop condition \<open>currentTurn < maxTurns\<close> still
  holds after the first turn, and the run ends in its second turn, above the limit.
\<close>

theorem runAgent_fractional_maxTurns:
  "maxTurns (behavior (sample_agent 5 (3 / 2) True False)) = 3 / 2
   \<and> map_option (\<lambda>(evs, r). map_option (\<lambda>run. (run_status run, currentTurn run)) r)
        (runAgent (sample_orchestrator (sample_agent 5 (3 / 2) True False)) sample_servers
           basic_platform sample_tools tool_call_then_text (\<lambda>n. False) ''run1'' ''agent1''
           sample_request)
      = Some (Some (Completed, 2))
   \<and> (of_nat 2 :: rat) > 3 / 2"
  by (simp add: run_defs tool_call_then_text_def)

text \<open>
  C1. The claim does not hold of the code. With \<open>maxToolCallsPerTurn = 1\<close> and an
  assistant message of two tool calls, the loop notes the truncation and stores the
  truncated copy in the assistant message (one call in the history), but
  \<open>executeTools\<close> receives the untruncated \<open>toolCalls\<close>: both calls get their
  \<open>tool_call\<close> step and event and are attempted. (Each attempt ends in the \<open>catch\<close>
  with an error step, see above, so no \<open>tool_result\<close> is produced for either.)
\<close>

theorem runAgent_ignores_limit:
  "maxToolCallsPerTurn (behavior (sample_agent 1 1 True False)) = 1
   \<and> map_option
        (\<lambda>(evs, r). (map event_type evs,
                      map_option (\<lambda>run. map step_type (run_steps run)) r,
                      map_option (\<lambda>run. map (\<lambda>m. map_option length (msg_tool_calls m))
                                             (run_messages run)) r))
        (runAgent (sample_orchestrator (sample_agent 1 1 True False)) sample_servers
           basic_platform sample_tools two_calls_then_text (\<lambda>n. False) ''run1'' ''agent1''
           sample_request)
      = Some ([''status'', ''step'', ''step'', ''step'', ''tool_call'', ''step'',
               ''step'', ''tool_call'', ''step'', ''done''],
              Some [Thinking, Thinking, ToolCallStep, ErrorStep, ToolCallStep, ErrorStep],
              Some [None, None, Some 1, None, None])"
  by (simp add: run_defs)

text \<open>
  C2. The claim does not hold of the code. With \<open>stopOnError\<close> and \<open>autoContinue\<close>, a
  tool error in turn 1 sets the status to \<open>failed\<close> and ends \<open>executeTools\<close>, but the
  loop then only checks \<open>autoContinue\<close> and runs turn 2; its text answer completes the
  run: status \<open>completed\<close>, \<open>currentTurn = 2\<close>, the error of turn 1 still recorded.
\<close>

theorem runAgent_continues_after_stop:
  "stopOnError (behavior (sample_agent 5 3 True True))
   \<and> map_option
        (\<lambda>(evs, r). (map_option run_status r, map_option currentTurn r,
                      map_option run_error r, map_option run_output r))
        (runAgent (sample_orchestrator (sample_agent 5 3 True True)) sample_servers
           basic_platform sample_tools tool_call_then_text (\<lambda>n. False) ''run1'' ''agent1''
           sample_request)
      = Some (Some Completed, Some 2, Some (Some (type_error_message ''name'')),
              Some (Some ''done''))"
  by (simp add: run_defs tool_call_then_text_def)

lemma resolve_model_empty:
  "resolve_model request agent = []
   \<longleftrightarrow> \<not> truthy (req_model request) \<and> \<not> truthy (preferredModel agent)"
  by (auto simp: resolve_model_def truthy_def Let_def split: option.splits)

text \<open>
  Steps are only ever appended to a run. A failed model call ends in the \<open>catch\<close> of
  the loop body, which appends a step of type \<open>error\<close> with the message and, under
  \<open>stopOnError\<close>, sets the status to \<open>failed\<close> and returns.
\<close>

lemma tool_call_body_steps:
  "tool_call_body P tools agent toolCall run = Some (evs, run', sg) \<Longrightarrow>
   set (run_steps run) \<subseteq> set (run_steps run')"
  by (auto simp: tool_call_body_def createStepEvent_def Let_def
           split: sum.splits option.splits if_splits prod.splits)

lemma executeTools_steps:
  "executeTools P tools agent toolCalls run = Some (evs, run', thrown) \<Longrightarrow>
   set (run_steps run) \<subseteq> set (run_steps run')"
proof (induction toolCalls arbitrary: run evs run' thrown)
  case Nil
  then show ?case by simp
next
  case (Cons toolCall rest)
  from Cons.prems obtain evs1 r1 sg where
    b: "tool_call_body P tools agent toolCall run = Some (evs1, r1, sg)"
    by (auto split: option.splits)
  from tool_call_body_steps [OF b] have s1: "set (run_steps run) \<subseteq> set (run_steps r1)" .
  show ?case
  proof (cases sg)
    case Proceed
    with Cons.prems b obtain evs2 where
      "executeTools P tools agent rest r1 = Some (evs2, run', thrown)"
      by (auto split: option.splits)
    from Cons.IH [OF this] s1 show ?thesis by blast
  next
    case Stop
    with Cons.prems b s1 show ?thesis by auto
  next
    case (Raise msg)
    with Cons.prems b s1 show ?thesis by auto
  qed
qed

lemma catch_turn_steps:
  "catch_turn agent evs run msg = (evs', run', x) \<Longrightarrow>
   set (run_steps run) \<subseteq> set (run_steps run')
   \<and> (\<exists>s \<in> set (run_steps run'). step_type s = ErrorStep \<and> step_error s = Some msg)
   \<and> (stopOnError (behavior agent) \<longrightarrow>
        x = ReturnLoop \<and> run_status run' = Failed \<and> run_error run' = Some msg)"
  by (auto simp: catch_turn_def createStepEvent_def split: if_splits)

lemma tool_turn_steps:
  "tool_turn P tools agent evs m toolCalls run = Some (evs', run', x) \<Longrightarrow>
   set (run_steps run) \<subseteq> set (run_steps run')"
  by (auto simp: tool_turn_def limit_tool_calls_def confirmation_gate_def createStepEvent_def
             createStatusEvent_def Let_def
           split: option.splits prod.splits if_splits
           dest!: executeTools_steps catch_turn_steps)

lemma run_turn_steps:
  "run_turn P tools agent chat aborted run = Some (evs, run', x) \<Longrightarrow>
   set (run_steps run) \<subseteq> set (run_steps run')"
  by (auto simp: run_turn_def begin_turn_def final_turn_def createStepEvent_def
             createStatusEvent_def Let_def
           split: option.splits prod.splits if_splits
           dest!: tool_turn_steps catch_turn_steps)

lemma run_turn_failure:
  assumes "run_turn P tools agent chat aborted run = Some (evs, run', x)"
    and "\<not> aborted (currentTurn run)"
    and "failure (chat (Suc (currentTurn run))) = Some msg"
  shows "(\<exists>s \<in> set (run_steps run'). step_type s = ErrorStep \<and> step_error s = Some msg)
   \<and> (stopOnError (behavior agent) \<longrightarrow>
        x = ReturnLoop \<and> run_status run' = Failed \<and> run_error run' = Some msg)"
proof -
  obtain ev0 run2 where b: "begin_turn run = (ev0, run2)"
    by (cases "begin_turn run") auto
  then have c2: "currentTurn run2 = Suc (currentTurn run)"
    by (auto simp: begin_turn_def createStepEvent_def Let_def)
  obtain cevs acc pending where
    cs: "consume_stream (deltas (chat (Suc (currentTurn run)))) [] None = (cevs, acc, pending)"
    by (cases "consume_stream (deltas (chat (Suc (currentTurn run)))) [] None") auto
  from assms b c2 cs have "catch_turn agent (ev0 # cevs) run2 msg = (evs, run', x)"
    by (simp add: run_turn_def Let_def)
  from catch_turn_steps [OF this] show ?thesis by blast
qed

lemma agent_loop_failures:
  "agent_loop P tools agent chat aborted run = Some (evs, run', x) \<Longrightarrow>
   set (run_steps run) \<subseteq> set (run_steps run')
   \<and> (\<forall>t msg. currentTurn run < t \<and> t \<le> currentTurn run' \<and> failure (chat t) = Some msg \<longrightarrow>
         (\<exists>s \<in> set (run_steps run'). step_type s = ErrorStep \<and> step_error s = Some msg)
         \<and> (stopOnError (behavior agent) \<longrightarrow>
              x = Returned \<and> run_status run' = Failed \<and> run_error run' = Some msg))"
proof (induction P tools agent chat aborted run arbitrary: evs run' x rule: agent_loop.induct)
  case (1 P tools agent chat aborted run)
  show ?case
  proof (cases "of_nat (currentTurn run) < maxTurns (behavior agent)")
    case False
    with "1.prems" have "run' = run"
      by (subst (asm) agent_loop.simps) simp
    then show ?thesis by auto
  next
    case True
    from run_turn_facts [of P tools agent chat aborted run] obtain evs1 r1 x1 where
      t: "run_turn P tools agent chat aborted run = Some (evs1, r1, x1)"
      and ab: "aborted (currentTurn run) \<longrightarrow>
          x1 = ReturnLoop \<and> currentTurn r1 = currentTurn run"
      and go: "\<not> aborted (currentTurn run) \<longrightarrow> currentTurn r1 = Suc (currentTurn run)"
      by blast
    from run_turn_steps [OF t] have st1: "set (run_steps run) \<subseteq> set (run_steps r1)" .
    have f1: "(\<exists>s \<in> set (run_steps r1). step_type s = ErrorStep \<and> step_error s = Some msg)
        \<and> (stopOnError (behavior agent) \<longrightarrow>
             x1 = ReturnLoop \<and> run_status r1 = Failed \<and> run_error r1 = Some msg)"
      if "\<not> aborted (currentTurn run)" "failure (chat (Suc (currentTurn run))) = Some msg"
      for msg
      using run_turn_failure [OF t that] .
    show ?thesis
    proof (cases x1)
      case NextTurn
      with ab have na: "\<not> aborted (currentTurn run)" by auto
      with go have c1: "currentTurn r1 = Suc (currentTurn run)" by simp
      from "1.prems" True t NextTurn obtain evs2 where
        l: "agent_loop P tools agent chat aborted r1 = Some (evs2, run', x)"
        by (subst (asm) agent_loop.simps) (auto split: option.splits)
      from "1.IH" [OF True t refl refl NextTurn l]
      have st2: "set (run_steps r1) \<subseteq> set (run_steps run')"
        and ih: "\<forall>t msg. currentTurn r1 < t \<and> t \<le> currentTurn run' \<and> failure (chat t) = Some msg \<longrightarrow>
           (\<exists>s \<in> set (run_steps run'). step_type s = ErrorStep \<and> step_error s = Some msg)
           \<and> (stopOnError (behavior agent) \<longrightarrow>
                x = Returned \<and> run_status run' = Failed \<and> run_error run' = Some msg)"
        by blast+
      have "\<forall>t msg. currentTurn run < t \<and> t \<le> currentTurn run' \<and> failure (chat t) = Some msg \<longrightarrow>
           (\<exists>s \<in> set (run_steps run'). step_type s = ErrorStep \<and> step_error s = Some msg)
           \<and> (stopOnError (behavior agent) \<longrightarrow>
                x = Returned \<and> run_status run' = Failed \<and> run_error run' = Some msg)"
      proof (intro allI impI)
        fix t msg
        assume h: "currentTurn run < t \<and> t \<le> currentTurn run' \<and> failure (chat t) = Some msg"
        show "(\<exists>s \<in> set (run_steps run'). step_type s = ErrorStep \<and> step_error s = Some msg)
           \<and> (stopOnError (behavior agent) \<longrightarrow>
                x = Returned \<and> run_status run' = Failed \<and> run_error run' = Some msg)"
        proof (cases "t = Suc (currentTurn run)")
          case True
          with h have fl: "failure (chat (Suc (currentTurn run))) = Some msg" by simp
          from f1 [OF na fl] NextTurn st2 show ?thesis by auto
        next
          case False
          with h c1 have "currentTurn r1 < t" by simp
          with h ih show ?thesis by blast
        qed
      qed
      with st1 st2 show ?thesis by blast
    next
      case BreakLoop
      with ab have na: "\<not> aborted (currentTurn run)" by auto
      with go have c1: "currentTurn r1 = Suc (currentTurn run)" by simp
      from "1.prems" True t BreakLoop have eq: "run' = r1" "x = FellThrough"
        by (subst (asm) agent_loop.simps, simp)+
      have "\<forall>t msg. currentTurn run < t \<and> t \<le> currentTurn run' \<and> failure (chat t) = Some msg \<longrightarrow>
           (\<exists>s \<in> set (run_steps run'). step_type s = ErrorStep \<and> step_error s = Some msg)
           \<and> (stopOnError (behavior agent) \<longrightarrow>
                x = Returned \<and> run_status run' = Failed \<and> run_error run' = Some msg)"
      proof (intro allI impI)
        fix t msg
        assume h: "currentTurn run < t \<and> t \<le> currentTurn run' \<and> failure (chat t) = Some msg"
        with c1 eq have "t = Suc (currentTurn run)" by simp
        with h have fl: "failure (chat (Suc (currentTurn run))) = Some msg" by simp
        from f1 [OF na fl] BreakLoop eq
        show "(\<exists>s \<in> set (run_steps run'). step_type s = ErrorStep \<and> step_error s = Some msg)
           \<and> (stopOnError (behavior agent) \<longrightarrow>
                x = Returned \<and> run_status run' = Failed \<and> run_error run' = Some msg)"
          by auto
      qed
      with st1 eq show ?thesis by blast
    next
      case ReturnLoop
      from "1.prems" True t ReturnLoop have eq: "run' = r1" "x = Returned"
        by (subst (asm) agent_loop.simps, simp)+
      have "\<forall>t msg. currentTurn run < t \<and> t \<le> currentTurn run' \<and> failure (chat t) = Some msg \<longrightarrow>
           (\<exists>s \<in> set (run_steps run'). step_type s = ErrorStep \<and> step_error s = Some msg)
           \<and> (stopOnError (behavior agent) \<longrightarrow>
                x = Returned \<and> run_status run' = Failed \<and> run_error run' = Some msg)"
      proof (intro allI impI)
        fix t msg
        assume h: "currentTurn run < t \<and> t \<le> currentTurn run' \<and> failure (chat t) = Some msg"
        show "(\<exists>s \<in> set (run_steps run'). step_type s = ErrorStep \<and> step_error s = Some msg)
           \<and> (stopOnError (behavior agent) \<longrightarrow>
                x = Returned \<and> run_status run' = Failed \<and> run_error run' = Some msg)"
        proof (cases "aborted (currentTurn run)")
          case True
          with ab eq h show ?thesis by auto
        next
          case na: False
          with go have c1: "currentTurn r1 = Suc (currentTurn run)" by simp
          with h eq have "t = Suc (currentTurn run)" by simp
          with h have fl: "failure (chat (Suc (currentTurn run))) = Some msg" by simp
          from f1 [OF na fl] eq show ?thesis by auto
        qed
      qed
      with st1 eq show ?thesis by blast
    qed
  qed
qed

lemma executeAgentLoop_failures:
  "executeAgentLoop P tools agent chat aborted run = Some (evs, run') \<Longrightarrow>
   \<forall>t msg. currentTurn run < t \<and> t \<le> currentTurn run' \<and> failure (chat t) = Some msg \<longrightarrow>
      (\<exists>s \<in> set (run_steps run'). step_type s = ErrorStep \<and> step_error s = Some msg)
      \<and> (stopOnError (behavior agent) \<longrightarrow>
           run_status run' = Failed \<and> run_error run' = Some msg)"
proof -
  assume a: "executeAgentLoop P tools agent chat aborted run = Some (evs, run')"
  from agent_loop_facts [of P tools agent chat aborted run] obtain evs1 r1 x where
    l: "agent_loop P tools agent chat aborted run = Some (evs1, r1, x)"
    by blast
  from agent_loop_failures [OF l]
  have f: "\<forall>t msg. currentTurn run < t \<and> t \<le> currentTurn r1 \<and> failure (chat t) = Some msg \<longrightarrow>
         (\<exists>s \<in> set (run_steps r1). step_type s = ErrorStep \<and> step_error s = Some msg)
         \<and> (stopOnError (behavior agent) \<longrightarrow>
              x = Returned \<and> run_status r1 = Failed \<and> run_error r1 = Some msg)"
    by blast
  show ?thesis
  proof (cases "x = FellThrough \<and> run_status r1 \<noteq> Completed \<and> run_status r1 \<noteq> Failed")
    case False
    with a l have "run' = r1"
      by (auto simp: executeAgentLoop_def split: loop_exit.splits if_splits)
    with f show ?thesis by blast
  next
    case True
    with a l have eq: "run' = r1\<lparr>run_status := Completed,
                                   run_output := Some (last_content (run_messages r1))\<rparr>"
      by (auto simp: executeAgentLoop_def)
    show ?thesis
    proof (intro allI impI)
      fix t msg
      assume h: "currentTurn run < t \<and> t \<le> currentTurn run' \<and> failure (chat t) = Some msg"
      with eq have "currentTurn run < t \<and> t \<le> currentTurn r1 \<and> failure (chat t) = Some msg"
        by simp
      with f have "(\<exists>s \<in> set (run_steps r1). step_type s = ErrorStep \<and> step_error s = Some msg)
         \<and> (stopOnError (behavior agent) \<longrightarrow>
              x = Returned \<and> run_status r1 = Failed \<and> run_error r1 = Some msg)"
        by blast
      with True eq
      show "(\<exists>s \<in> set (run_steps run'). step_type s = ErrorStep \<and> step_error s = Some msg)
        \<and> (stopOnError (behavior agent) \<longrightarrow>
             run_status run' = Failed \<and> run_error run' = Some msg)"
        by auto
    qed
  qed
qed

text \<open>
  C3 (as amended). If a precondition fails (unknown agent, capacity reached, unknown
  server, no model), the events are a single \<open>error\<close> event, there is no \<open>done\<close>
  event and no run is started. Otherwise the run returns, and its events are
  \<open>status(executing)\<close>, the events of the loop, none of them an \<open>error\<close> or a \<open>done\<close>
  event, and one \<open>done\<close> event, last, carrying the final run. A failed model call is
  not reported by an \<open>error\<close> event: it is recorded in the final run as a step of type
  \<open>error\<close> with the message, and under \<open>stopOnError\<close> the final run has the status
  \<open>failed\<close> and the message as its error.
\<close>

theorem runAgent_event_sequence:
  "(agents orch agentId = None \<longrightarrow>
      runAgent orch servers P tools chat aborted runId agentId request
        = Some ([ErrorEvent (''Agent not found: '' @ agentId)], None))
   \<and> (\<forall>agent. agents orch agentId = Some agent
         \<and> maxConcurrentRuns orch \<le> int (activeRuns orch) \<longrightarrow>
      runAgent orch servers P tools chat aborted runId agentId request
        = Some ([ErrorEvent ''Maximum concurrent agent runs reached''], None))
   \<and> (\<forall>agent. agents orch agentId = Some agent
         \<and> int (activeRuns orch) < maxConcurrentRuns orch
         \<and> servers (req_serverId request) = None \<longrightarrow>
      runAgent orch servers P tools chat aborted runId agentId request
        = Some ([ErrorEvent (''Server not found: '' @ req_serverId request)], None))
   \<and> (\<forall>agent server. agents orch agentId = Some agent
         \<and> int (activeRuns orch) < maxConcurrentRuns orch
         \<and> servers (req_serverId request) = Some server
         \<and> \<not> truthy (req_model request) \<and> \<not> truthy (preferredModel agent) \<longrightarrow>
      runAgent orch servers P tools chat aborted runId agentId request
        = Some ([ErrorEvent ''No model specified for agent run''], None))
   \<and> (\<forall>agent server. agents orch agentId = Some agent
         \<and> int (activeRuns orch) < maxConcurrentRuns orch
         \<and> servers (req_serverId request) = Some server
         \<and> (truthy (req_model request) \<or> truthy (preferredModel agent)) \<longrightarrow>
      (\<exists>evs run.
         runAgent orch servers P tools chat aborted runId agentId request
           = Some (StatusEvent Executing # evs @ [DoneEvent run], Some run)
         \<and> (\<forall>e \<in> set evs. \<not> is_done e \<and> \<not> is_error e)
         \<and> (\<forall>t msg. 1 \<le> t \<and> t \<le> currentTurn run \<and> failure (chat t) = Some msg \<longrightarrow>
               (\<exists>s \<in> set (run_steps run). step_type s = ErrorStep \<and> step_error s = Some msg)
               \<and> (stopOnError (behavior agent) \<longrightarrow>
                    run_status run = Failed \<and> run_error run = Some msg))))"
proof (intro conjI allI impI)
  assume "agents orch agentId = None"
  then show "runAgent orch servers P tools chat aborted runId agentId request
        = Some ([ErrorEvent (''Agent not found: '' @ agentId)], None)"
    by (simp add: runAgent_def)
next
  fix agent
  assume "agents orch agentId = Some agent \<and> maxConcurrentRuns orch \<le> int (activeRuns orch)"
  then show "runAgent orch servers P tools chat aborted runId agentId request
        = Some ([ErrorEvent ''Maximum concurrent agent runs reached''], None)"
    by (simp add: runAgent_def)
next
  fix agent
  assume "agents orch agentId = Some agent
         \<and> int (activeRuns orch) < maxConcurrentRuns orch
         \<and> servers (req_serverId request) = None"
  then show "runAgent orch servers P tools chat aborted runId agentId request
        = Some ([ErrorEvent (''Server not found: '' @ req_serverId request)], None)"
    by (simp add: runAgent_def)
next
  fix agent server
  assume "agents orch agentId = Some agent
         \<and> int (activeRuns orch) < maxConcurrentRuns orch
         \<and> servers (req_serverId request) = Some server
         \<and> \<not> truthy (req_model request) \<and> \<not> truthy (preferredModel agent)"
  then show "runAgent orch servers P tools chat aborted runId agentId request
        = Some ([ErrorEvent ''No model specified for agent run''], None)"
    using resolve_model_empty [of request agent] by (simp add: runAgent_def)
next
  fix agent server
  assume a: "agents orch agentId = Some agent
         \<and> int (activeRuns orch) < maxConcurrentRuns orch
         \<and> servers (req_serverId request) = Some server
         \<and> (truthy (req_model request) \<or> truthy (preferredModel agent))"
  define run0 where "run0 =
     \<lparr>run_id = runId, run_agentId = agentId, run_status = Executing,
      run_input = req_input request, run_steps = [], run_output = None,
      run_error = None,
      run_messages = [plain_message System (systemPrompt agent)] @
                     (case req_contextMessages request of None \<Rightarrow> [] | Some ms \<Rightarrow> ms) @
                     [plain_message User (req_input request)],
      currentTurn = 0, totalToolCalls = 0\<rparr>"
  from executeAgentLoop_facts [of P tools agent chat aborted run0] obtain evs r where
    e: "executeAgentLoop P tools agent chat aborted run0 = Some (evs, r)"
    and c: "\<forall>e \<in> set evs. \<not> is_done e \<and> \<not> is_error e"
    by blast
  have c0: "currentTurn run0 = 0" by (simp add: run0_def)
  from executeAgentLoop_failures [OF e]
  have f: "\<forall>t msg. 1 \<le> t \<and> t \<le> currentTurn r \<and> failure (chat t) = Some msg \<longrightarrow>
               (\<exists>s \<in> set (run_steps r). step_type s = ErrorStep \<and> step_error s = Some msg)
               \<and> (stopOnError (behavior agent) \<longrightarrow>
                    run_status r = Failed \<and> run_error r = Some msg)"
    unfolding c0 by (simp add: Suc_le_eq)
  from a have m: "resolve_model request agent \<noteq> []"
    using resolve_model_empty [of request agent] by blast
  from a m e have "runAgent orch servers P tools chat aborted runId agentId request
           = Some (StatusEvent Executing # evs @ [DoneEvent r], Some r)"
    by (simp add: runAgent_def createStatusEvent_def Let_def run0_def)
  with c f show "\<exists>evs run.
         runAgent orch servers P tools chat aborted runId agentId request
           = Some (StatusEvent Executing # evs @ [DoneEvent run], Some run)
         \<and> (\<forall>e \<in> set evs. \<not> is_done e \<and> \<not> is_error e)
         \<and> (\<forall>t msg. 1 \<le> t \<and> t \<le> currentTurn run \<and> failure (chat t) = Some msg \<longrightarrow>
               (\<exists>s \<in> set (run_steps run). step_type s = ErrorStep \<and> step_error s = Some msg)
               \<and> (stopOnError (behavior agent) \<longrightarrow>
                    run_status run = Failed \<and> run_error run = Some msg))"
    by blast
qed

text \<open>
  The theorem on the sample orchestrator, once for each precondition, once for a run,
  and once for a run whose first model call fails under \<open>stopOnError\<close>.
\<close>

theorem runAgent_event_sequence_witness:
  "runAgent (sample_orchestrator (sample_agent 5 3 True False)) sample_servers basic_platform
      sample_tools tool_call_then_text (\<lambda>n. False) ''run1'' ''nobody'' sample_request
     = Some ([ErrorEvent ''Agent not found: nobody''], None)
   \<and> runAgent ((sample_orchestrator (sample_agent 5 3 True False))\<lparr>activeRuns := 5\<rparr>)
        sample_servers basic_platform sample_tools tool_call_then_text (\<lambda>n. False)
        ''run1'' ''agent1'' sample_request
     = Some ([ErrorEvent ''Maximum concurrent agent runs reached''], None)
   \<and> runAgent (sample_orchestrator (sample_agent 5 3 True False)) sample_servers basic_platform
        sample_tools tool_call_then_text (\<lambda>n. False) ''run1'' ''agent1''
        (sample_request\<lparr>req_serverId := ''remote''\<rparr>)
     = Some ([ErrorEvent ''Server not found: remote''], None)
   \<and> runAgent (sample_orchestrator (sample_agent 5 3 True False)) sample_servers basic_platform
        sample_tools tool_call_then_text (\<lambda>n. False) ''run1'' ''agent1''
        (sample_request\<lparr>req_model := None\<rparr>)
     = Some ([ErrorEvent ''No model specified for agent run''], None)
   \<and> (\<exists>evs run.
        runAgent (sample_orchestrator (sample_agent 5 3 True False)) sample_servers
          basic_platform sample_tools tool_call_then_text (\<lambda>n. False) ''run1'' ''agent1''
          sample_request
        = Some (StatusEvent Executing # evs @ [DoneEvent run], Some run)
        \<and> (\<forall>e \<in> set evs. \<not> is_done e \<and> \<not> is_error e))
   \<and> failure (failed_response ''fetch failed'') = Some ''fetch failed''
   \<and> stopOnError (behavior (sample_agent 5 3 True True))
   \<and> (\<exists>evs run.
        runAgent (sample_orchestrator (sample_agent 5 3 True True)) sample_servers
          basic_platform sample_tools (\<lambda>t. failed_response ''fetch failed'') (\<lambda>n. False)
          ''run1'' ''agent1'' sample_request
        = Some (StatusEvent Executing # evs @ [DoneEvent run], Some run)
        \<and> currentTurn run = 1
        \<and> (\<forall>e \<in> set evs. \<not> is_done e \<and> \<not> is_error e)
        \<and> (\<exists>s \<in> set (run_steps run). step_type s = ErrorStep
               \<and> step_error s = Some ''fetch failed'')
        \<and> run_status run = Failed \<and> run_error run = Some ''fetch failed'')"
proof -
  define A where "A = sample_agent 5 3 True False"
  define B where "B = sample_agent 5 3 True True"
  define orch where "orch = sample_orchestrator A"
  define orchB where "orchB = sample_orchestrator B"
  define failing where "failing = (\<lambda>t :: nat. failed_response ''fetch failed'')"
  have a1: "agents orch ''nobody'' = None" by (simp add: orch_def sample_orchestrator_def)
  have a2: "agents (orch\<lparr>activeRuns := 5\<rparr>) ''agent1'' = Some A
         \<and> maxConcurrentRuns (orch\<lparr>activeRuns := 5\<rparr>) \<le> int (activeRuns (orch\<lparr>activeRuns := 5\<rparr>))"
    by (simp add: orch_def sample_orchestrator_def)
  have a3: "agents orch ''agent1'' = Some A
         \<and> int (activeRuns orch) < maxConcurrentRuns orch
         \<and> sample_servers (req_serverId (sample_request\<lparr>req_serverId := ''remote''\<rparr>)) = None"
    by (simp add: orch_def sample_orchestrator_def sample_servers_def)
  have a4: "agents orch ''agent1'' = Some A
         \<and> int (activeRuns orch) < maxConcurrentRuns orch
         \<and> sample_servers (req_serverId (sample_request\<lparr>req_model := None\<rparr>))
             = Some \<lparr>server_id = ''local'', server_url = ''http://localhost:1234/v1''\<rparr>
         \<and> \<not> truthy (req_model (sample_request\<lparr>req_model := None\<rparr>))
         \<and> \<not> truthy (preferredModel A)"
    by (simp add: orch_def sample_orchestrator_def sample_servers_def sample_request_def
          truthy_def A_def sample_agent_def)
  have a5: "agents orch ''agent1'' = Some A
         \<and> int (activeRuns orch) < maxConcurrentRuns orch
         \<and> sample_servers (req_serverId sample_request)
             = Some \<lparr>server_id = ''local'', server_url = ''http://localhost:1234/v1''\<rparr>
         \<and> (truthy (req_model sample_request) \<or> truthy (preferredModel A))"
    by (simp add: orch_def sample_orchestrator_def sample_servers_def sample_request_def
          truthy_def)
  have a6: "agents orchB ''agent1'' = Some B
         \<and> int (activeRuns orchB) < maxConcurrentRuns orchB
         \<and> sample_servers (req_serverId sample_request)
             = Some \<lparr>server_id = ''local'', server_url = ''http://localhost:1234/v1''\<rparr>
         \<and> (truthy (req_model sample_request) \<or> truthy (preferredModel B))"
    by (simp add: orchB_def sample_orchestrator_def sample_servers_def sample_request_def
          truthy_def)
  note t1 = runAgent_event_sequence [of orch "''nobody''" sample_servers basic_platform
      sample_tools tool_call_then_text "\<lambda>n. False" "''run1''" sample_request]
  note t2 = runAgent_event_sequence [of "orch\<lparr>activeRuns := 5\<rparr>" "''agent1''" sample_servers
      basic_platform sample_tools tool_call_then_text "\<lambda>n. False" "''run1''" sample_request]
  note t3 = runAgent_event_sequence [of orch "''agent1''" sample_servers basic_platform
      sample_tools tool_call_then_text "\<lambda>n. False" "''run1''"
      "sample_request\<lparr>req_serverId := ''remote''\<rparr>"]
  note t4 = runAgent_event_sequence [of orch "''agent1''" sample_servers basic_platform
      sample_tools tool_call_then_text "\<lambda>n. False" "''run1''"
      "sample_request\<lparr>req_model := None\<rparr>"]
  note t5 = runAgent_event_sequence [of orch "''agent1''" sample_servers basic_platform
      sample_tools tool_call_then_text "\<lambda>n. False" "''run1''" sample_request]
  note t6 = runAgent_event_sequence [of orchB "''agent1''" sample_servers basic_platform
      sample_tools failing "\<lambda>n. False" "''run1''" sample_request]
  from t1 a1 have c1: "runAgent orch sample_servers basic_platform
      sample_tools tool_call_then_text (\<lambda>n. False) ''run1'' ''nobody'' sample_request
     = Some ([ErrorEvent (''Agent not found: '' @ ''nobody'')], None)" by blast
  from t2 a2 have c2: "runAgent (orch\<lparr>activeRuns := 5\<rparr>)
        sample_servers basic_platform sample_tools tool_call_then_text (\<lambda>n. False)
        ''run1'' ''agent1'' sample_request
     = Some ([ErrorEvent ''Maximum concurrent agent runs reached''], None)" by blast
  from t3 a3 have c3: "runAgent orch sample_servers basic_platform
        sample_tools tool_call_then_text (\<lambda>n. False) ''run1'' ''agent1''
        (sample_request\<lparr>req_serverId := ''remote''\<rparr>)
     = Some ([ErrorEvent (''Server not found: ''
               @ req_serverId (sample_request\<lparr>req_serverId := ''remote''\<rparr>))], None)" by blast
  from t4 a4 have c4: "runAgent orch sample_servers basic_platform
        sample_tools tool_call_then_text (\<lambda>n. False) ''run1'' ''agent1''
        (sample_request\<lparr>req_model := None\<rparr>)
     = Some ([ErrorEvent ''No model specified for agent run''], None)" by blast
  from t5 a5 have c5: "\<exists>evs run.
        runAgent orch sample_servers
          basic_platform sample_tools tool_call_then_text (\<lambda>n. False) ''run1'' ''agent1''
          sample_request
        = Some (StatusEvent Executing # evs @ [DoneEvent run], Some run)
        \<and> (\<forall>e \<in> set evs. \<not> is_done e \<and> \<not> is_error e)" by blast
  note t6' = t6 [THEN conjunct2, THEN conjunct2, THEN conjunct2, THEN conjunct2,
      rule_format, OF a6]
  from t6' obtain evs run where
    r6: "runAgent orchB sample_servers basic_platform sample_tools failing (\<lambda>n. False)
           ''run1'' ''agent1'' sample_request
         = Some (StatusEvent Executing # evs @ [DoneEvent run], Some run)"
    and e6: "\<forall>e \<in> set evs. \<not> is_done e \<and> \<not> is_error e"
    and f6: "\<And>t msg. 1 \<le> t \<Longrightarrow> t \<le> currentTurn run \<Longrightarrow> failure (failing t) = Some msg \<Longrightarrow>
               (\<exists>s \<in> set (run_steps run). step_type s = ErrorStep \<and> step_error s = Some msg)
               \<and> (stopOnError (behavior B) \<longrightarrow>
                    run_status run = Failed \<and> run_error run = Some msg)"
    by blast
  have turn: "map_option (\<lambda>(evs, r). map_option currentTurn r)
        (runAgent orchB sample_servers basic_platform sample_tools failing (\<lambda>n. False)
           ''run1'' ''agent1'' sample_request) = Some (Some 1)"
    unfolding orchB_def B_def failing_def by (simp add: run_defs)
  with r6 have ct: "currentTurn run = 1" by simp
  have fl: "failure (failing 1) = Some ''fetch failed''"
    by (simp add: failing_def failed_response_def)
  have sb: "stopOnError (behavior B)" by (simp add: B_def sample_agent_def)
  from f6 [of 1 "''fetch failed''"] ct fl sb
  have g6: "(\<exists>s \<in> set (run_steps run). step_type s = ErrorStep
               \<and> step_error s = Some ''fetch failed'')
        \<and> run_status run = Failed \<and> run_error run = Some ''fetch failed''"
    by simp
  from r6 ct e6 g6 have c6: "\<exists>evs run.
        runAgent orchB sample_servers
          basic_platform sample_tools failing (\<lambda>n. False)
          ''run1'' ''agent1'' sample_request
        = Some (StatusEvent Executing # evs @ [DoneEvent run], Some run)
        \<and> currentTurn run = 1
        \<and> (\<forall>e \<in> set evs. \<not> is_done e \<and> \<not> is_error e)
        \<and> (\<exists>s \<in> set (run_steps run). step_type s = ErrorStep
               \<and> step_error s = Some ''fetch failed'')
        \<and> run_status run = Failed \<and> run_error run = Some ''fetch failed''"
    by (intro exI [of _ evs] exI [of _ run]) simp
  have fl': "failure (failed_response ''fetch failed'') = Some ''fetch failed''"
    by (simp add: failed_response_def)
  from c1 c2 c3 c4 c5 fl' sb c6 show ?thesis
    unfolding orch_def orchB_def A_def B_def failing_def by simp
qed

text \<open>
  The claim as stated fails for a failure inside the loop: the request of turn 1 fails
  under \<open>stopOnError\<close>; the run ends \<open>failed\<close> with the error recorded, and the events
  are \<open>status\<close>, two \<open>step\<close>s and \<open>done\<close>, with no \<open>error\<close> event.
\<close>

theorem runAgent_failure_without_error_event:
  "map_option
     (\<lambda>(evs, r). (map event_type evs, map_option run_status r, map_option run_error r))
     (runAgent (sample_orchestrator (sample_agent 5 3 True True)) sample_servers
        basic_platform sample_tools (\<lambda>t. failed_response ''fetch failed'') (\<lambda>n. False)
        ''run1'' ''agent1'' sample_request)
   = Some ([''status'', ''step'', ''step'', ''done''], Some Failed, Some (Some ''fetch failed''))"
  by (simp add: run_defs)
















end
